theory Spec2Isabelle
  imports Main "HOL-Library.Word"
begin

unbundle bit_operations_syntax

section \<open>Python values used by the SIP/RTP core\<close>

text \<open>
  Python integers are unbounded and are modelled as \<^typ>\<open>int\<close>; \<open>x & m\<close>, \<open>x | m\<close>,
  \<open>x >> n\<close> and \<open>x << n\<close> are \<open>AND\<close>, \<open>OR\<close>, \<open>drop_bit\<close> and \<open>push_bit\<close> on
  \<^typ>\<open>int\<close> (two's complement, as in Python).  A \<open>bytes\<close> object is a list of
  8-bit words.  Every exception the modelled code can raise is a value of \<open>py_error\<close>.
\<close>

type_synonym byte = "8 word"
type_synonym bytes = "byte list"

datatype py_error = StructError | OverflowError | ValueError | IndexError | OSError

text \<open>Python indexing \<open>xs[i]\<close> (negative indices count from the end) and slicing
  \<open>xs[a:b]\<close> (indices clamped to the sequence, never raising).\<close>

definition py_index :: "'a list \<Rightarrow> int \<Rightarrow> py_error + 'a" where
  "py_index xs i =
     (if 0 \<le> i \<and> i < int (length xs) then Inr (xs ! nat i)
      else if i < 0 \<and> - int (length xs) \<le> i then Inr (xs ! nat (int (length xs) + i))
      else Inl IndexError)"

definition py_clamp :: "nat \<Rightarrow> int \<Rightarrow> nat" where
  "py_clamp n i = (if i < 0 then nat (max 0 (int n + i)) else min n (nat i))"

definition py_slice :: "'a list \<Rightarrow> int \<Rightarrow> int \<Rightarrow> 'a list" where
  "py_slice xs a b =
     (let lo = py_clamp (length xs) a; hi = py_clamp (length xs) b
      in take (hi - lo) (drop lo xs))"

section \<open>struct.pack / struct.unpack for the formats the RTP code uses\<close>

text \<open>
  \<open>struct.pack('>BBHII', ...)\<close> writes unsigned big-endian fields of 1, 1, 2, 4 and 4
  bytes and raises \<open>struct.error\<close> for a value outside the field's range;
  \<open>struct.unpack\<close> raises it for a buffer whose length is not the format's size.
\<close>

definition be_encode :: "nat \<Rightarrow> int \<Rightarrow> bytes" where
  "be_encode n x = map (\<lambda>i. word_of_int (drop_bit (8 * i) x)) (rev [0..<n])"

definition be_decode :: "bytes \<Rightarrow> int" where
  "be_decode bs = foldl (\<lambda>acc b. acc * 256 + uint b) 0 bs"

definition pack_field :: "nat \<Rightarrow> int \<Rightarrow> py_error + bytes" where
  "pack_field n x = (if 0 \<le> x \<and> x < 2 ^ (8 * n) then Inr (be_encode n x) else Inl StructError)"

definition struct_pack_BBHII :: "int \<Rightarrow> int \<Rightarrow> int \<Rightarrow> int \<Rightarrow> int \<Rightarrow> py_error + bytes" where
  "struct_pack_BBHII b1 b2 h i1 i2 =
     (case (pack_field 1 b1, pack_field 1 b2, pack_field 2 h, pack_field 4 i1, pack_field 4 i2) of
        (Inr f1, Inr f2, Inr f3, Inr f4, Inr f5) \<Rightarrow> Inr (f1 @ f2 @ f3 @ f4 @ f5)
      | _ \<Rightarrow> Inl StructError)"

definition struct_unpack_BBHII :: "bytes \<Rightarrow> py_error + (int \<times> int \<times> int \<times> int \<times> int)" where
  "struct_unpack_BBHII buf =
     (if length buf \<noteq> 12 then Inl StructError
      else Inr (be_decode (take 1 buf), be_decode (take 1 (drop 1 buf)),
                be_decode (take 2 (drop 2 buf)), be_decode (take 4 (drop 4 buf)),
                be_decode (take 4 (drop 8 buf))))"

definition struct_unpack_HH :: "bytes \<Rightarrow> py_error + (int \<times> int)" where
  "struct_unpack_HH buf =
     (if length buf \<noteq> 4 then Inl StructError
      else Inr (be_decode (take 2 buf), be_decode (take 2 (drop 2 buf))))"

section \<open>RTP packet codec (EnhancedRTPManager)\<close>

text \<open>\<open>_create_rtp_packet\<close>: a 12-byte header (version 2, no padding, no extension, no
  CSRC, no marker) followed by the payload.  A payload type other than 0 or 8 is sent
  as 0.\<close>

definition create_rtp_packet :: "int \<Rightarrow> int \<Rightarrow> int \<Rightarrow> bytes \<Rightarrow> int \<Rightarrow> py_error + bytes" where
  "create_rtp_packet sequence timestamp ssrc payload payload_type =
     (let version = 2; padding = 0; extension = 0; cc = 0; marker = 0;
          pt = (if payload_type = 0 \<or> payload_type = 8 then payload_type else 0)
      in case struct_pack_BBHII
                (push_bit 6 version OR push_bit 5 padding OR push_bit 4 extension OR cc)
                (push_bit 7 marker OR pt)
                (sequence AND 0xFFFF)
                (timestamp AND 0xFFFFFFFF)
                (ssrc AND 0xFFFFFFFF) of
           Inl e \<Rightarrow> Inl e
         | Inr header \<Rightarrow> Inr (header @ payload))"

text \<open>The tail of \<open>_parse_rtp_header_and_payload\<close>, from the comment "Handle padding"
  on: \<open>offset\<close> is where the payload starts once the CSRC list and the extension header
  have been skipped.\<close>

definition rtp_strip_padding :: "bytes \<Rightarrow> int \<Rightarrow> int \<Rightarrow> int \<Rightarrow> py_error + (int \<times> bytes option)" where
  "rtp_strip_padding packet pt padding offset =
     (let end0 = int (length packet) in
      case (if padding \<noteq> 0
            then (case py_index packet (- 1) of
                    Inl e \<Rightarrow> Inl e
                  | Inr padbyte \<Rightarrow>
                      let padlen = uint padbyte
                      in Inr (if padlen < end0 - offset then end0 - padlen else end0))
            else Inr end0) of
        Inl e \<Rightarrow> Inl e
      | Inr end1 \<Rightarrow>
          if offset \<ge> end1 then Inr (pt, None)
          else Inr (pt, Some (py_slice packet offset end1)))"

text \<open>The block of \<open>_parse_rtp_header_and_payload\<close> under the comment "Skip
  extension header if present", followed by the tail above.\<close>

definition rtp_skip_extension ::
  "bytes \<Rightarrow> int \<Rightarrow> int \<Rightarrow> int \<Rightarrow> int \<Rightarrow> py_error + (int \<times> bytes option)" where
  "rtp_skip_extension packet pt padding extension offset =
     (if extension \<noteq> 0 then
        (if int (length packet) < offset + 4 then Inr (pt, None)
         else case struct_unpack_HH (py_slice packet offset (offset + 4)) of
           Inl e \<Rightarrow> Inl e
         | Inr (ext_profile, ext_len_words) \<Rightarrow>
             let offset1 = offset + 4;
                 ext_len_bytes = ext_len_words * 4
             in if int (length packet) < offset1 + ext_len_bytes then Inr (pt, None)
                else rtp_strip_padding packet pt padding (offset1 + ext_len_bytes))
      else rtp_strip_padding packet pt padding offset)"

text \<open>The body of the \<open>try\<close> block of \<open>_parse_rtp_header_and_payload\<close>; \<open>Inl\<close> is an
  exception escaping the body.\<close>

definition parse_rtp_body :: "bytes \<Rightarrow> py_error + (int \<times> bytes option)" where
  "parse_rtp_body packet =
     (if length packet < 12 then Inr (0, None)
      else case struct_unpack_BBHII (py_slice packet 0 12) of
        Inl e \<Rightarrow> Inl e
      | Inr (b1, b2, seq, ts, ssrc) \<Rightarrow>
          let version = drop_bit 6 b1 AND 0x03;
              padding = drop_bit 5 b1 AND 0x01;
              extension = drop_bit 4 b1 AND 0x01;
              csrc_count = b1 AND 0x0F;
              pt = b2 AND 0x7F;
              offset = 12;
              csrc_bytes = csrc_count * 4
          in if int (length packet) < offset + csrc_bytes then Inr (pt, None)
             else rtp_skip_extension packet pt padding extension (offset + csrc_bytes))"

text \<open>\<open>_parse_rtp_header_and_payload\<close>: any exception of the body becomes \<open>(0, None)\<close>.\<close>

definition parse_rtp_header_and_payload :: "bytes \<Rightarrow> int \<times> bytes option" where
  "parse_rtp_header_and_payload packet =
     (case parse_rtp_body packet of Inl e \<Rightarrow> (0, None) | Inr r \<Rightarrow> r)"

text \<open>The header fields as the parser reads them from the first bytes of a packet of
  at least 12 bytes.\<close>

definition rtp_b1 :: "bytes \<Rightarrow> int" where
  "rtp_b1 packet = uint (packet ! 0)"

definition rtp_pt :: "bytes \<Rightarrow> int" where
  "rtp_pt packet = uint (packet ! 1) AND 0x7F"

definition rtp_csrc_count :: "bytes \<Rightarrow> int" where
  "rtp_csrc_count packet = rtp_b1 packet AND 0x0F"

definition rtp_extension :: "bytes \<Rightarrow> int" where
  "rtp_extension packet = drop_bit 4 (rtp_b1 packet) AND 0x01"

definition rtp_padding :: "bytes \<Rightarrow> int" where
  "rtp_padding packet = drop_bit 5 (rtp_b1 packet) AND 0x01"

definition rtp_ext_len_words :: "bytes \<Rightarrow> int" where
  "rtp_ext_len_words packet =
     (let offset = 12 + rtp_csrc_count packet * 4
      in be_decode (take 2 (drop 2 (py_slice packet offset (offset + 4)))))"

subsection \<open>The per-stream counters of the sender\<close>

text \<open>The entries of the \<open>stream_info\<close> dictionary that \<open>_send_audio_thread\<close> reads and
  updates when it sends one frame; \<open>chunk_size\<close> is the manager's constant 160
  (20 ms at 8 kHz).\<close>

record rtp_stream =
  sequence :: int
  timestamp :: int
  ssrc :: int
  payload_type :: int
  tx_count :: int

definition chunk_size :: int where
  "chunk_size = 160"

text \<open>One iteration of the sending loop from "Create RTP packet" to the update of the
  counters: the packet handed to \<open>sendto\<close> and the stream afterwards.\<close>

definition send_frame :: "rtp_stream \<Rightarrow> bytes \<Rightarrow> py_error + (bytes \<times> rtp_stream)" where
  "send_frame stream payload =
     (case create_rtp_packet (sequence stream) (timestamp stream) (ssrc stream) payload
             (payload_type stream) of
        Inl e \<Rightarrow> Inl e
      | Inr rtp_packet \<Rightarrow>
          Inr (rtp_packet,
               stream\<lparr>sequence := (sequence stream + 1) AND 0xFFFF,
                      timestamp := (timestamp stream + chunk_size) AND 0xFFFFFFFF,
                      tx_count := tx_count stream + 1\<rparr>))"

subsection \<open>Example datagrams\<close>

text \<open>A 3-byte datagram; a 16-byte datagram whose header announces 3 CSRC entries
  (12 bytes) but carries 4; a 20-byte datagram with the extension bit whose extension
  header announces 2 words but carries 1.  All three carry payload type 8.\<close>

definition short_packet :: bytes where
  "short_packet = [0x80, 0x08, 0x00]"

definition csrc_overrun_packet :: bytes where
  "csrc_overrun_packet = [0x83, 0x08, 0, 1, 0, 0, 0, 160, 0, 0, 0, 7, 1, 1, 1, 1]"

definition ext_overrun_packet :: bytes where
  "ext_overrun_packet =
     [0x90, 0x08, 0, 1, 0, 0, 0, 160, 0, 0, 0, 7, 0xBE, 0xDE, 0, 2, 1, 1, 1, 1]"

text \<open>The parts of a datagram with 2 CSRC entries and 4 bytes of padding: a header with
  version 2, the padding bit, no extension bit, CSRC count 2 and payload type 8; two CSRC
  identifiers; three payload bytes; the padding, whose last byte is its length.\<close>

definition padded_header :: bytes where
  "padded_header = [0xA2, 0x08, 0, 1, 0, 0, 0, 160, 0, 0, 0, 7]"

definition padded_csrc :: bytes where
  "padded_csrc = [1, 1, 1, 1, 2, 2, 2, 2]"

definition padded_payload :: bytes where
  "padded_payload = [9, 8, 7]"

definition padded_pad :: bytes where
  "padded_pad = [0, 0, 0, 4]"

text \<open>The datagram of 24 bytes made of that header, the two CSRC identifiers and the
  padding, with no payload byte between them.\<close>

definition padding_only_packet :: bytes where
  "padding_only_packet = padded_header @ padded_csrc @ padded_pad"

text \<open>The same datagram with the extension bit set in the header and an extension header
  of one word (\<open>0xBEDE\<close>, length 1, four bytes of data) between the CSRC list and the
  payload.\<close>

definition extended_header :: bytes where
  "extended_header = [0xB2, 0x08, 0, 1, 0, 0, 0, 160, 0, 0, 0, 7]"

definition extension_block :: bytes where
  "extension_block = [0xBE, 0xDE, 0, 1, 5, 5, 5, 5]"


text \<open>The twelve bytes \<open>struct.pack\<close> produces for the header of a packet with payload
  type 0, and the packet \<open>_create_rtp_packet\<close> builds from sequence 65535, timestamp
  4294967295, SSRC 1 and an empty payload.\<close>

definition rtp_header :: "int \<Rightarrow> int \<Rightarrow> int \<Rightarrow> bytes" where
  "rtp_header s t X = [0x80, 0] @ be_encode 2 s @ be_encode 4 t @ be_encode 4 X"

definition empty_payload_packet :: bytes where
  "empty_payload_packet = [0x80, 0, 0xFF, 0xFF, 0xFF, 0xFF, 0xFF, 0xFF, 0, 0, 0, 1]"

section \<open>G.711 codec (AudioConverter)\<close>

text \<open>The decoding tables of \<open>ulaw2lin\<close> and \<open>alaw2lin\<close>, 128 entries each, indexed by the
  low seven bits of the code byte.\<close>

definition ULAW_TABLE :: "int list" where
  "ULAW_TABLE =
     [
- 32124, - 31100, - 30076, - 29052, - 28028, - 27004, - 25980, - 24956,
      - 23932, - 22908, - 21884, - 20860, - 19836, - 18812, - 17788, - 16764,
      - 15996, - 15484, - 14972, - 14460, - 13948, - 13436, - 12924, - 12412,
      - 11900, - 11388, - 10876, - 10364, - 9852, - 9340, - 8828, - 8316,
      - 7932, - 7676, - 7420, - 7164, - 6908, - 6652, - 6396, - 6140,
      - 5884, - 5628, - 5372, - 5116, - 4860, - 4604, - 4348, - 4092,
      - 3900, - 3772, - 3644, - 3516, - 3388, - 3260, - 3132, - 3004,
      - 2876, - 2748, - 2620, - 2492, - 2364, - 2236, - 2108, - 1980,
      - 1884, - 1820, - 1756, - 1692, - 1628, - 1564, - 1500, - 1436,
      - 1372, - 1308, - 1244, - 1180, - 1116, - 1052, - 988, - 924,
      - 876, - 844, - 812, - 780, - 748, - 716, - 684, - 652,
      - 620, - 588, - 556, - 524, - 492, - 460, - 428, - 396,
      - 372, - 356, - 340, - 324, - 308, - 292, - 276, - 260,
      - 244, - 228, - 212, - 196, - 180, - 164, - 148, - 132,
      - 120, - 112, - 104, - 96, - 88, - 80, - 72, - 64,
      - 56, - 48, - 40, - 32, - 24, - 16, - 8, 0]"

definition ALAW_TABLE :: "int list" where
  "ALAW_TABLE =
     [
- 5504, - 5248, - 6016, - 5760, - 4480, - 4224, - 4992, - 4736,
      - 7552, - 7296, - 8064, - 7808, - 6528, - 6272, - 7040, - 6784,
      - 2752, - 2624, - 3008, - 2880, - 2240, - 2112, - 2496, - 2368,
      - 3776, - 3648, - 4032, - 3904, - 3264, - 3136, - 3520, - 3392,
      - 22016, - 20992, - 24064, - 23040, - 17920, - 16896, - 19968, - 18944,
      - 30208, - 29184, - 32256, - 31232, - 26112, - 25088, - 28160, - 27136,
      - 11008, - 10496, - 12032, - 11520, - 8960, - 8448, - 9984, - 9472,
      - 15104, - 14592, - 16128, - 15616, - 13056, - 12544, - 14080, - 13568,
      - 344, - 328, - 376, - 360, - 280, - 264, - 312, - 296,
      - 472, - 456, - 504, - 488, - 408, - 392, - 440, - 424,
      - 88, - 72, - 120, - 104, - 24, - 8, - 56, - 40,
      - 216, - 200, - 248, - 232, - 152, - 136, - 184, - 168,
      - 1376, - 1312, - 1504, - 1440, - 1120, - 1056, - 1248, - 1184,
      - 1888, - 1824, - 2016, - 1952, - 1632, - 1568, - 1760, - 1696,
      - 688, - 656, - 752, - 720, - 560, - 528, - 624, - 592,
      - 944, - 912, - 1008, - 976, - 816, - 784, - 880, - 848]"

text \<open>\<open>array.array('h').append(v)\<close> raises \<open>OverflowError\<close> unless \<open>v\<close> is a signed 16-bit
  value; \<open>bytearray.append(v)\<close> raises \<open>ValueError\<close> unless \<open>0 \<le> v < 256\<close>.\<close>

definition array_h_item :: "int \<Rightarrow> py_error + int" where
  "array_h_item v = (if - 32768 \<le> v \<and> v \<le> 32767 then Inr v else Inl OverflowError)"

definition bytearray_item :: "int \<Rightarrow> py_error + byte" where
  "bytearray_item v = (if 0 \<le> v \<and> v < 256 then Inr (word_of_int v) else Inl ValueError)"

text \<open>Running a per-item conversion over a sequence, stopping at the first exception.\<close>

fun map_items :: "('a \<Rightarrow> py_error + 'b) \<Rightarrow> 'a list \<Rightarrow> py_error + 'b list" where
  "map_items f [] = Inr []"
| "map_items f (x # xs) =
     (case f x of
        Inl e \<Rightarrow> Inl e
      | Inr y \<Rightarrow> (case map_items f xs of Inl e \<Rightarrow> Inl e | Inr ys \<Rightarrow> Inr (y # ys)))"

text \<open>The loop body of \<open>ulaw2lin\<close> for one code byte.\<close>

definition ulaw2lin_byte :: "byte \<Rightarrow> py_error + int" where
  "ulaw2lin_byte b =
     (let sign = uint b AND 0x80;
          magnitude = uint b AND 0x7F
      in case py_index ULAW_TABLE magnitude of
           Inl e \<Rightarrow> Inl e
         | Inr linear \<Rightarrow> array_h_item (if sign = 0 then - linear else linear))"

definition ulaw2lin :: "bytes \<Rightarrow> int \<Rightarrow> py_error + int list" where
  "ulaw2lin data width = (if width \<noteq> 2 then Inl ValueError else map_items ulaw2lin_byte data)"

text \<open>The loop body of \<open>alaw2lin\<close> for one code byte.\<close>

definition alaw2lin_byte :: "byte \<Rightarrow> py_error + int" where
  "alaw2lin_byte b =
     (let sign = uint b AND 0x80;
          magnitude = uint b AND 0x7F
      in case py_index ALAW_TABLE magnitude of
           Inl e \<Rightarrow> Inl e
         | Inr linear \<Rightarrow> array_h_item (if sign \<noteq> 0 then - linear else linear))"

definition alaw2lin :: "bytes \<Rightarrow> int \<Rightarrow> py_error + int list" where
  "alaw2lin data width = (if width \<noteq> 2 then Inl ValueError else map_items alaw2lin_byte data)"

text \<open>The segment search of \<open>lin2ulaw\<close>:
  \<open>while temp != 0 and seg < 7: seg += 1; temp >>= 1\<close>.\<close>

function ulaw_seg_loop :: "int \<Rightarrow> int \<Rightarrow> int" where
  "ulaw_seg_loop seg temp =
     (if temp \<noteq> 0 \<and> seg < 7 then ulaw_seg_loop (seg + 1) (drop_bit 1 temp) else seg)"
  by pat_completeness auto
termination
  by (relation "measure (\<lambda>(seg, temp). nat (7 - seg))") auto

text \<open>The loop body of \<open>lin2ulaw\<close> for one sample of the input array.\<close>

definition lin2ulaw_sample :: "int \<Rightarrow> py_error + byte" where
  "lin2ulaw_sample sample =
     (let biased0 = sample + 33;
          sign = (if biased0 < 0 then 0x00 else 0x80);
          biased1 = (if biased0 < 0 then - biased0 else biased0);
          biased = (if biased1 > 32767 then 32767 else biased1);
          seg = ulaw_seg_loop 0 (drop_bit 7 biased);
          uval = (if seg = 0 then drop_bit 1 biased AND 0x0F
                  else (drop_bit (nat seg) biased AND 0x0F) OR 0x10);
          ulaw_byte = sign OR push_bit 4 seg OR uval
      in bytearray_item (ulaw_byte XOR 0xFF))"

text \<open>\<open>lin2ulaw\<close> on the samples that \<open>array('h').frombytes(data)\<close> yields.\<close>

definition lin2ulaw :: "int list \<Rightarrow> int \<Rightarrow> py_error + bytes" where
  "lin2ulaw samples width =
     (if width \<noteq> 2 then Inl ValueError else map_items lin2ulaw_sample samples)"

text \<open>The segment search of \<open>lin2alaw\<close>:
  \<open>while temp != 1 and seg < 7: seg += 1; temp >>= 1\<close>.\<close>

function alaw_seg_loop :: "int \<Rightarrow> int \<Rightarrow> int" where
  "alaw_seg_loop seg temp =
     (if temp \<noteq> 1 \<and> seg < 7 then alaw_seg_loop (seg + 1) (drop_bit 1 temp) else seg)"
  by pat_completeness auto
termination
  by (relation "measure (\<lambda>(seg, temp). nat (7 - seg))") auto

text \<open>The loop body of \<open>lin2alaw\<close> for one sample of the input array.\<close>

definition lin2alaw_sample :: "int \<Rightarrow> py_error + byte" where
  "lin2alaw_sample sample0 =
     (let sign = (if sample0 < 0 then 0x00 else 0x80);
          sample1 = (if sample0 < 0 then - sample0 else sample0);
          sample = (if sample1 > 32767 then 32767 else sample1);
          alaw_byte =
            (if sample \<ge> 256 then
               (let seg = alaw_seg_loop 1 (drop_bit 8 sample);
                    aval = (if seg = 1 then drop_bit 4 sample AND 0x0F
                            else drop_bit (nat (seg + 3)) sample AND 0x0F)
                in push_bit 4 seg OR aval)
             else drop_bit 4 sample)
      in bytearray_item ((sign OR alaw_byte) XOR 0x55))"

definition lin2alaw :: "int list \<Rightarrow> int \<Rightarrow> py_error + bytes" where
  "lin2alaw samples width =
     (if width \<noteq> 2 then Inl ValueError else map_items lin2alaw_sample samples)"

subsection \<open>Round trip of one sample\<close>

datatype codec = PCMU | PCMA

text \<open>Encoding a one-sample frame and decoding the result, as the sending and the
  receiving thread do with the negotiated codec; \<open>Inl\<close> is an exception of either step.\<close>

definition g711_roundtrip :: "codec \<Rightarrow> int \<Rightarrow> py_error + int list" where
  "g711_roundtrip c x =
     (case c of
        PCMU \<Rightarrow> (case lin2ulaw [x] 2 of Inl e \<Rightarrow> Inl e | Inr data \<Rightarrow> ulaw2lin data 2)
      | PCMA \<Rightarrow> (case lin2alaw [x] 2 of Inl e \<Rightarrow> Inl e | Inr data \<Rightarrow> alaw2lin data 2))"

text \<open>The quantization step of ITU-T G.711 around a 16-bit sample, in 16-bit units: the
  error bound the round trip is measured against.  Both laws have eight segments; the
  step doubles from one segment to the next and is 1024 in the last one.  For \<mu>-law the
  segment is that of the magnitude plus the bias 132, clipped to 32767, and the first
  step is 8; for A-law the first two segments share the step 16.\<close>

definition g711_segment :: "int \<Rightarrow> nat" where
  "g711_segment m = length (filter (\<lambda>k. 2 ^ (k + 8) \<le> m) [0..<7])"

definition g711_step :: "codec \<Rightarrow> int \<Rightarrow> int" where
  "g711_step c x =
     (case c of
        PCMU \<Rightarrow> 2 ^ (g711_segment (min (\<bar>x\<bar> + 132) 32767) + 3)
      | PCMA \<Rightarrow> (let k = g711_segment (min \<bar>x\<bar> 32767) in if k = 0 then 16 else 2 ^ (k + 3)))"

definition within_g711_bound :: "codec \<Rightarrow> int \<Rightarrow> bool" where
  "within_g711_bound c x =
     (case g711_roundtrip c x of
        Inr [y] \<Rightarrow> - 32768 \<le> y \<and> y \<le> 32767 \<and> \<bar>y - x\<bar> \<le> g711_step c x
      | _ \<Rightarrow> False)"

definition pcm_test_samples :: "int list" where
  "pcm_test_samples = [- 32768, - 1, 0, 1, 32767]"

section \<open>Codec selection (EnhancedSipManager)\<close>

text \<open>
  Both answer paths work on what the SDP parser extracted: \<open>pts\<close>, the payload types of
  the \<open>m=audio\<close> line in the order offered, and \<open>rtpmap\<close>, the dictionary built from the
  \<open>a=rtpmap\<close> lines (payload type to upper-cased codec name).  \<open>d.get(k, default)\<close> is
  \<open>dict_get\<close>.
\<close>

definition dict_get :: "('k \<rightharpoonup> 'v) \<Rightarrow> 'k \<Rightarrow> 'v \<Rightarrow> 'v" where
  "dict_get d k dflt = (case d k of None \<Rightarrow> dflt | Some v \<Rightarrow> v)"

text \<open>\<open>_handle_incoming_invite_with_media\<close>, under "Choose codec: prefer PCMU(0), else
  PCMA(8)": the pair \<open>(chosen_pt, chosen_codec)\<close> stored as \<open>remote_pt\<close> and
  \<open>remote_codec\<close> of the new call.\<close>

definition invite_choose_codec :: "int list \<Rightarrow> (int \<rightharpoonup> string) \<Rightarrow> int \<times> string" where
  "invite_choose_codec offered_pts rtpmap =
     (let chosen_pt = (if 0 \<in> set offered_pts then 0
                       else (if 8 \<in> set offered_pts then 8 else 0));
          chosen_codec = (if chosen_pt = 0 \<or> chosen_pt = 8
                          then dict_get rtpmap chosen_pt ''PCMU'' else ''PCMU'')
      in (chosen_pt, chosen_codec))"

text \<open>\<open>_parse_sdp_response\<close>, under "Choose codec for outgoing media": the entries
  \<open>remote_pt\<close> and \<open>remote_codec\<close> of the call dictionary, absent (\<open>None\<close>) in a call that
  \<open>_make_call_thread\<close> has just created, are written only when 0 or 8 was offered.\<close>

definition response_choose_codec ::
  "int list \<Rightarrow> (int \<rightharpoonup> string) \<Rightarrow> int option \<times> string option \<Rightarrow> int option \<times> string option" where
  "response_choose_codec pts rtpmap call_media =
     (if pts \<noteq> [] then
        (if 0 \<in> set pts then (Some 0, Some (dict_get rtpmap 0 ''PCMU''))
         else if 8 \<in> set pts then (Some 8, Some (dict_get rtpmap 8 ''PCMA''))
         else call_media)
      else call_media)"

text \<open>What \<open>_handle_call_responses\<close> hands to \<open>start_rtp_stream\<close> after the 200 OK:
  \<open>call_info.get('remote_pt', 0)\<close> and \<open>call_info.get('remote_codec', 'PCMU')\<close>.\<close>

definition negotiated_media :: "int option \<times> string option \<Rightarrow> int \<times> string" where
  "negotiated_media call_media =
     (case call_media of (pt, codec) \<Rightarrow>
        ((case pt of None \<Rightarrow> 0 | Some p \<Rightarrow> p),
         (case codec of None \<Rightarrow> ''PCMU'' | Some c \<Rightarrow> c)))"

definition outgoing_choose_codec :: "int list \<Rightarrow> (int \<rightharpoonup> string) \<Rightarrow> int \<times> string" where
  "outgoing_choose_codec pts rtpmap =
     negotiated_media (response_choose_codec pts rtpmap (None, None))"

text \<open>The codec the sending thread encodes with: A-law when the stream's codec name is
  \<open>PCMA\<close>, \<mu>-law for every other name.\<close>

definition stream_encoder :: "string \<Rightarrow> codec" where
  "stream_encoder name = (if name = ''PCMA'' then PCMA else PCMU)"

section \<open>Incoming calls and the deferred answer (EnhancedSipManager)\<close>

text \<open>
  The entries of a call dictionary in \<open>active_calls\<close> that the answer operations read or
  write.  An entry that may be absent or \<open>None\<close> is an option; \<open>incoming\<close> and
  \<open>deferred_answer\<close> are read with \<open>.get\<close> and only tested for truth, so an absent entry
  is \<open>False\<close>.  The call state is one of the state names the manager assigns.
\<close>

datatype call_state =
  CALLING | TRYING | RINGING | ANSWERING | ANSWERED | ESTABLISHED | TERMINATED
  | FAILED | BUSY | TIMEOUT | ERROR

type_synonym address = "string \<times> nat"

record call_info =
  account_id :: "nat option"
  caller_number :: "string option"
  state :: call_state
  rtp_port :: "int option"
  remote_ip :: "string option"
  remote_pt :: "int option"
  remote_codec :: "string option"
  incoming :: bool
  raw_invite :: "string option"
  deferred_answer :: bool
  sip_addr :: "address option"
  answered_ts :: bool

text \<open>A UDP socket of an account, as far as the answer operations use it:
  \<open>getsockname()[1]\<close> (\<open>None\<close> when the call raises) and whether \<open>sendto\<close> raises
  \<open>OSError\<close>.\<close>

record udp_socket =
  bound_port :: "nat option"
  sendto_raises :: bool

text \<open>The 200 OK with SDP that \<open>_create_200ok_with_sdp\<close> builds, by its ingredients: the
  INVITE whose headers it echoes, the local RTP port, the payload type and codec name
  of the SDP answer, and the port of its Contact header.\<close>

datatype sip_message = Ok200Sdp string "int option" int string nat

text \<open>The manager: its calls, sockets and account ports, the datagrams handed to
  \<open>sendto\<close> so far (socket owner, message, destination), whether an
  \<open>on_call_state_changed\<close> callback is installed and the notifications it has received.\<close>

record sip_manager =
  active_calls :: "nat \<rightharpoonup> call_info"
  sockets :: "nat \<rightharpoonup> udp_socket"
  account_ports :: "nat \<rightharpoonup> nat"
  sent :: "(nat \<times> sip_message \<times> address) list"
  has_state_callback :: bool
  notified :: "(nat \<times> call_state \<times> string) list"

definition notify_state :: "sip_manager \<Rightarrow> nat \<Rightarrow> call_state \<Rightarrow> string \<Rightarrow> sip_manager" where
  "notify_state m cid st txt =
     (if has_state_callback m then m\<lparr>notified := notified m @ [(cid, st, txt)]\<rparr> else m)"

text \<open>The 200 OK for a stored call: \<open>_create_200ok_with_sdp(raw_invite, rtp_port,
  call_info.get('remote_pt', 0), call_info.get('remote_codec', 'PCMU'))\<close> with the given
  Contact port; and the Contact port \<open>answer_deferred_call\<close> ends up with, the socket's
  bound port, or 5060 when \<open>getsockname\<close> raises.\<close>

definition ok200_for :: "call_info \<Rightarrow> string \<Rightarrow> nat \<Rightarrow> sip_message" where
  "ok200_for ci invite contact =
     Ok200Sdp invite (rtp_port ci)
       (case remote_pt ci of None \<Rightarrow> 0 | Some p \<Rightarrow> p)
       (case remote_codec ci of None \<Rightarrow> ''PCMU'' | Some c \<Rightarrow> c)
       contact"

definition contact_port :: "udp_socket \<Rightarrow> nat" where
  "contact_port sock = (case bound_port sock of None \<Rightarrow> 5060 | Some p \<Rightarrow> p)"

text \<open>\<open>answer_deferred_call\<close>.  Every \<open>return False\<close> and the \<open>except\<close> branch leave the
  manager as it was: the call dictionary is written only after \<open>sendto\<close> has returned.\<close>

definition answer_deferred_call :: "sip_manager \<Rightarrow> nat \<Rightarrow> bool \<times> sip_manager" where
  "answer_deferred_call m internal_id =
     (case active_calls m internal_id of
        None \<Rightarrow> (False, m)
      | Some ci \<Rightarrow>
          if \<not> incoming ci \<or> \<not> deferred_answer ci then (False, m)
          else if state ci \<noteq> RINGING then (False, m)
          else
            (case (raw_invite ci, sip_addr ci, account_id ci) of
               (Some invite, Some addr, Some acct) \<Rightarrow>
                 if invite = [] then (False, m)
                 else
                   (case sockets m acct of
                      None \<Rightarrow> (False, m)
                    | Some sock \<Rightarrow>
                        (let ok_response = ok200_for ci invite (contact_port sock)
                         in if sendto_raises sock then (False, m)
                            else
                              (True,
                               notify_state
                                 (m\<lparr>sent := sent m @ [(acct, ok_response, addr)],
                                    active_calls := (active_calls m)(internal_id \<mapsto>
                                      ci\<lparr>deferred_answer := False, state := ANSWERED\<rparr>)\<rparr>)
                                 internal_id ANSWERED ''200 OK sent (deferred)'')))
             | _ \<Rightarrow> (False, m)))"

text \<open>\<open>answer_incoming_call\<close>.  The key \<open>account_id\<close> is present in every call
  dictionary the manager creates, so \<open>call_info['account_id']\<close> does not raise; with the
  value \<open>None\<close> no socket is found.  When the call has no stored \<open>sip_addr\<close> the
  destination is the remote IP with the account's SIP port; a missing account or a
  remote IP of \<open>None\<close> makes the \<open>try\<close> block fail before anything is sent.  The
  installed callback is the dialer's \<open>_on_call_state_changed\<close>, which returns normally.\<close>

definition answer_incoming_call :: "sip_manager \<Rightarrow> nat \<Rightarrow> bool \<times> sip_manager" where
  "answer_incoming_call m internal_id =
     (case active_calls m internal_id of
        None \<Rightarrow> (False, m)
      | Some ci \<Rightarrow>
          if state ci \<noteq> RINGING \<and> state ci \<noteq> ANSWERING then (False, m)
          else
            (case (case account_id ci of None \<Rightarrow> None | Some acct \<Rightarrow>
                     (case sockets m acct of None \<Rightarrow> None | Some sock \<Rightarrow> Some (acct, sock))) of
               None \<Rightarrow> (False, m)
             | Some (acct, sock) \<Rightarrow>
                 (case raw_invite ci of
                    None \<Rightarrow> (False, m)
                  | Some msg \<Rightarrow>
                      if msg = [] then (False, m)
                      else
                        (let ok_msg = ok200_for ci msg 5060;
                             dest = (case sip_addr ci of
                                       Some a \<Rightarrow> Some a
                                     | None \<Rightarrow>
                                         (case (remote_ip ci, account_ports m acct) of
                                            (Some ip, Some port) \<Rightarrow> Some (ip, port)
                                          | _ \<Rightarrow> None))
                         in case dest of
                              None \<Rightarrow> (False, m)
                            | Some a \<Rightarrow>
                                if sendto_raises sock then (False, m)
                                else
                                  (True,
                                   notify_state
                                     (m\<lparr>sent := sent m @ [(acct, ok_msg, a)],
                                        active_calls := (active_calls m)(internal_id \<mapsto>
                                          ci\<lparr>state := ANSWERED, answered_ts := True\<rparr>)\<rparr>)
                                     internal_id ANSWERED ''Answered (deferred)'')))))"

text \<open>Calling \<open>answer_deferred_call\<close> \<open>n\<close> times in a row on the same call: the results in
  order and the manager at the end.\<close>

fun answer_times :: "nat \<Rightarrow> sip_manager \<Rightarrow> nat \<Rightarrow> bool list \<times> sip_manager" where
  "answer_times 0 m cid = ([], m)"
| "answer_times (Suc n) m cid =
     (case answer_deferred_call m cid of
        (ok, m1) \<Rightarrow> (case answer_times n m1 cid of (oks, m2) \<Rightarrow> (ok # oks, m2)))"

text \<open>The call dictionary \<open>_handle_incoming_invite_with_media\<close> stores for an INVITE
  received by account \<open>acct\<close> from \<open>addr\<close>, with the caller number extracted from its From
  header, and a manager holding two such calls (ids 1000 and 1001) of account 1, whose
  socket is bound to port 5061.\<close>

definition ringing_call :: "nat \<Rightarrow> string option \<Rightarrow> nat \<Rightarrow> call_info" where
  "ringing_call acct number port =
     \<lparr>account_id = Some acct, caller_number = number, state = RINGING,
      rtp_port = Some (int port), remote_ip = Some ''203.0.113.7'', remote_pt = Some 0,
      remote_codec = Some ''PCMU'', incoming = True, raw_invite = Some ''INVITE'',
      deferred_answer = True, sip_addr = Some (''203.0.113.7'', 5060), answered_ts = False\<rparr>"

definition two_call_manager :: sip_manager where
  "two_call_manager =
     \<lparr>active_calls = [1000 \<mapsto> ringing_call 1 (Some ''94769804761'') 10000,
                      1001 \<mapsto> ringing_call 1 (Some ''94760000000'') 10002],
      sockets = [1 \<mapsto> \<lparr>bound_port = Some 5061, sendto_raises = False\<rparr>],
      account_ports = [1 \<mapsto> 5060],
      sent = [],
      has_state_callback = True,
      notified = []\<rparr>"

definition answered_once :: sip_manager where
  "answered_once = snd (answer_deferred_call two_call_manager 1000)"

section \<open>Deferred-answer coordinator (SipDialer, the presence callback \<open>on_state\<close>)\<close>

text \<open>
  \<open>_deferred_calls\<close> is a dictionary from the manager's call id to the entry stored by
  \<open>_on_incoming_call\<close>; iteration follows insertion order, oldest call first, so it is a
  list of pairs.  Of an entry the callback reads \<open>account_id\<close> and reads and writes
  \<open>answered\<close>.
\<close>

record deferred_call =
  d_account_id :: nat
  answered :: bool

type_synonym deferred_calls = "(nat \<times> deferred_call) list"

datatype presence_state = WA_IDLE | WA_RINGING | WA_CONNECTED | WA_UNKNOWN

text \<open>\<open>norm(n) = n.lstrip('+').lstrip('0')\<close>.\<close>

definition norm :: "string \<Rightarrow> string" where
  "norm n = dropWhile (\<lambda>c. c = CHR ''0'') (dropWhile (\<lambda>c. c = CHR ''+'') n)"

text \<open>\<open>number and sip_number and not number_match\<close>: both numbers are present and
  non-empty and their normal forms differ.\<close>

definition number_mismatch :: "string option \<Rightarrow> string option \<Rightarrow> bool" where
  "number_mismatch number sip_number =
     (case (number, sip_number) of
        (Some n, Some s) \<Rightarrow> n \<noteq> [] \<and> s \<noteq> [] \<and> norm n \<noteq> norm s
      | _ \<Rightarrow> False)"

text \<open>The SIP caller number the callback looks up for a deferred call.\<close>

definition sip_number_of :: "sip_manager \<Rightarrow> nat \<Rightarrow> string option" where
  "sip_number_of m cid =
     (case active_calls m cid of None \<Rightarrow> None | Some call_obj \<Rightarrow> caller_number call_obj)"

text \<open>\<open>_attempt_sip_answer\<close> on the enhanced manager, which has both answer methods.\<close>

definition attempt_sip_answer :: "sip_manager \<Rightarrow> nat \<Rightarrow> bool \<times> sip_manager" where
  "attempt_sip_answer m call_id =
     (case answer_deferred_call m call_id of
        (ok, m1) \<Rightarrow> if \<not> ok then answer_incoming_call m1 call_id else (ok, m1))"

text \<open>The loop "Try number-based matching first" over a snapshot of the entries: the
  entries afterwards, the manager afterwards and \<open>matched_any\<close>.\<close>

fun match_pass ::
  "nat \<Rightarrow> string option \<Rightarrow> deferred_calls \<Rightarrow> sip_manager \<Rightarrow> deferred_calls \<times> sip_manager \<times> bool" where
  "match_pass account number [] m = ([], m, False)"
| "match_pass account number ((cid, info) # rest) m =
     (if d_account_id info \<noteq> account \<or> answered info then
        (case match_pass account number rest m of
           (rest1, m1, matched) \<Rightarrow> ((cid, info) # rest1, m1, matched))
      else if number_mismatch number (sip_number_of m cid) then
        (case match_pass account number rest m of
           (rest1, m1, matched) \<Rightarrow> ((cid, info) # rest1, m1, matched))
      else
        (case attempt_sip_answer m cid of
           (ok, m0) \<Rightarrow>
             (case match_pass account number rest m0 of
                (rest1, m1, matched) \<Rightarrow>
                  if ok then ((cid, info\<lparr>answered := True\<rparr>) # rest1, m1, True)
                  else ((cid, info) # rest1, m1, matched))))"

text \<open>The loop under "Fallback": the first pending entry of the account whose answer
  succeeds is marked and ends the loop.\<close>

fun fallback_pass :: "nat \<Rightarrow> deferred_calls \<Rightarrow> sip_manager \<Rightarrow> deferred_calls \<times> sip_manager" where
  "fallback_pass account [] m = ([], m)"
| "fallback_pass account ((cid, info) # rest) m =
     (if d_account_id info = account \<and> \<not> answered info then
        (case attempt_sip_answer m cid of
           (ok, m0) \<Rightarrow>
             if ok then ((cid, info\<lparr>answered := True\<rparr>) # rest, m0)
             else (case fallback_pass account rest m0 of
                     (rest1, m1) \<Rightarrow> ((cid, info) # rest1, m1)))
      else
        (case fallback_pass account rest m of
           (rest1, m1) \<Rightarrow> ((cid, info) # rest1, m1)))"

definition pending_calls :: "nat \<Rightarrow> deferred_calls \<Rightarrow> nat list" where
  "pending_calls account d =
     map fst (filter (\<lambda>(cid, info). d_account_id info = account \<and> \<not> answered info) d)"

text \<open>\<open>on_state\<close>, from "For matching logic adjust state name" on.  The part before it
  only prepares a status label for the user interface.\<close>

definition on_state ::
  "nat \<Rightarrow> presence_state \<Rightarrow> string option \<Rightarrow> deferred_calls \<times> sip_manager
     \<Rightarrow> deferred_calls \<times> sip_manager" where
  "on_state account st number dm =
     (case dm of (d, m) \<Rightarrow>
        if st = WA_CONNECTED then
          (let pending = pending_calls account d
           in case match_pass account number d m of
                (d1, m1, matched_any) \<Rightarrow>
                  if \<not> matched_any \<and> pending \<noteq> [] then fallback_pass account d1 m1
                  else (d1, m1))
        else (d, m))"

subsection \<open>Example coordinator states\<close>

text \<open>Two pending deferred calls of account 1, ids 1000 and 1001, in order of arrival;
  the manager \<open>two_call_manager\<close> holds the calls, with caller numbers 94769804761 and
  94760000000.\<close>

definition two_pending :: deferred_calls where
  "two_pending =
     [(1000, \<lparr>d_account_id = 1, answered = False\<rparr>),
      (1001, \<lparr>d_account_id = 1, answered = False\<rparr>)]"

definition answered_ids :: "deferred_calls \<times> sip_manager \<Rightarrow> nat list" where
  "answered_ids dm = map fst (filter (\<lambda>(cid, info). answered info) (fst dm))"

definition sent_count :: "deferred_calls \<times> sip_manager \<Rightarrow> nat" where
  "sent_count dm = length (sent (snd dm))"

subsection \<open>Notions used to state the coordinator's properties\<close>

text \<open>The part of the manager an answer attempt on another call cannot change.\<close>

definition frame_of :: "nat \<Rightarrow> sip_manager \<Rightarrow> sip_manager \<Rightarrow> bool" where
  "frame_of cid m m' \<longleftrightarrow>
     sockets m' = sockets m \<and> account_ports m' = account_ports m
   \<and> (\<forall>c. c \<noteq> cid \<longrightarrow> active_calls m' c = active_calls m c)
   \<and> (\<forall>c. sip_number_of m' c = sip_number_of m c)"

text \<open>\<open>answered_only may d d'\<close>: the entries \<open>d'\<close> are the entries \<open>d\<close>, same ids in
  the same order, except that some entries that were not answered and satisfy \<open>may\<close>
  are now marked answered.\<close>

definition answered_only ::
  "(nat \<Rightarrow> deferred_call \<Rightarrow> bool) \<Rightarrow> deferred_calls \<Rightarrow> deferred_calls \<Rightarrow> bool" where
  "answered_only may d d' \<longleftrightarrow>
     list_all2 (\<lambda>e e'. fst e' = fst e \<and>
                  (snd e' = snd e \<or>
                   (may (fst e) (snd e) \<and> \<not> answered (snd e)
                    \<and> snd e' = (snd e)\<lparr>answered := True\<rparr>))) d d'"

text \<open>The number of entries marked answered.\<close>

definition answered_count :: "deferred_calls \<Rightarrow> nat" where
  "answered_count d = length (filter (\<lambda>e. answered (snd e)) d)"

text \<open>No entry of the list is a pending call of the account.\<close>

definition none_pending :: "nat \<Rightarrow> deferred_calls \<Rightarrow> bool" where
  "none_pending account d = list_all (\<lambda>e. \<not> (d_account_id (snd e) = account \<and> \<not> answered (snd e))) d"

text \<open>What both passes keep of the manager.\<close>

definition same_env :: "sip_manager \<Rightarrow> sip_manager \<Rightarrow> bool" where
  "same_env m m' \<longleftrightarrow>
     sockets m' = sockets m \<and> account_ports m' = account_ports m
   \<and> (\<forall>c. sip_number_of m' c = sip_number_of m c)"

text \<open>The CONNECTED events of the examples: account 1 with the number of the first
  call, with a number that belongs to neither call, and without a number.\<close>

definition matching_event :: "deferred_calls \<times> sip_manager \<Rightarrow> deferred_calls \<times> sip_manager" where
  "matching_event = on_state 1 WA_CONNECTED (Some ''+94769804761'')"

definition foreign_event :: "deferred_calls \<times> sip_manager \<Rightarrow> deferred_calls \<times> sip_manager" where
  "foreign_event = on_state 1 WA_CONNECTED (Some ''+94771234567'')"

definition numberless_event :: "deferred_calls \<times> sip_manager \<Rightarrow> deferred_calls \<times> sip_manager" where
  "numberless_event = on_state 1 WA_CONNECTED None"

section \<open>Account registrar (WorkingSipManager)\<close>

text \<open>
  What the registration thread does, as the sequence of its observable steps: a full
  registration attempt (\<open>_perform_registration\<close>, numbered from 0), a \<open>time.sleep\<close> of
  the given number of seconds, the entry of the account into \<open>registered_accounts\<close>, and
  a call of \<open>on_registration_state_changed(account_id, registered, status_code)\<close>.
\<close>

datatype reg_event =
  Attempt nat
  | Sleep nat
  | AddRegistered nat
  | RegistrationStateChanged nat bool nat

text \<open>The loop \<open>for attempt in range(max_retries)\<close> of \<open>register_thread\<close> over the
  attempt numbers still to run: the steps taken and the final value of \<open>success\<close>.
  \<open>perform attempt\<close> is what \<open>_perform_registration\<close> returns in that attempt; it
  catches every exception itself and depends on the network only.\<close>

fun retry_loop :: "(nat \<Rightarrow> bool) \<Rightarrow> nat \<Rightarrow> nat list \<Rightarrow> reg_event list \<times> bool" where
  "retry_loop perform max_retries [] = ([], False)"
| "retry_loop perform max_retries (attempt # rest) =
     (let success = perform attempt
      in if success then ([Attempt attempt], True)
         else
           (case retry_loop perform max_retries rest of
              (steps, final) \<Rightarrow>
                (Attempt attempt
                 # (if int attempt < int max_retries - 1 then [Sleep 3] else [])
                 @ steps,
                 final)))"

text \<open>\<open>register_thread\<close>: three attempts at most, then the report.  \<open>has_callback\<close> says
  whether \<open>on_registration_state_changed\<close> is installed.\<close>

definition register_thread :: "nat \<Rightarrow> (nat \<Rightarrow> bool) \<Rightarrow> bool \<Rightarrow> reg_event list" where
  "register_thread acct perform has_callback =
     (let max_retries = 3
      in case retry_loop perform max_retries [0..<max_retries] of
           (steps, success) \<Rightarrow>
             steps @
             (if success then
                AddRegistered acct
                # (if has_callback then [RegistrationStateChanged acct True 200] else [])
              else (if has_callback then [RegistrationStateChanged acct False 0] else [])))"

text \<open>\<open>register_account\<close>: it refuses an account that was not added or has no socket, and
  otherwise starts the thread and returns \<open>True\<close>; the second component is what the
  thread then does.\<close>

definition register_account ::
  "nat set \<Rightarrow> nat set \<Rightarrow> nat \<Rightarrow> (nat \<Rightarrow> bool) \<Rightarrow> bool \<Rightarrow> bool \<times> reg_event list" where
  "register_account accounts with_socket acct perform has_callback =
     (if acct \<notin> accounts then (False, [])
      else if acct \<notin> with_socket then (False, [])
      else (True, register_thread acct perform has_callback))"

subsection \<open>The steps on a clock\<close>

text \<open>A clock in milliseconds.  Attempt \<open>n\<close> takes \<open>took n\<close> milliseconds and
  \<open>time.sleep(s)\<close> suspends the thread for \<open>s\<close> seconds or longer, \<open>late k\<close> milliseconds
  longer for the \<open>k\<close>-th step from the end; the other steps take no time.  The result is
  the list of (start, end) times of the attempts.\<close>

fun attempt_spans :: "(nat \<Rightarrow> nat) \<Rightarrow> (nat \<Rightarrow> nat) \<Rightarrow> nat \<Rightarrow> reg_event list \<Rightarrow> (nat \<times> nat) list" where
  "attempt_spans took late now [] = []"
| "attempt_spans took late now (Attempt n # steps) =
     (now, now + took n) # attempt_spans took late (now + took n) steps"
| "attempt_spans took late now (Sleep s # steps) =
     attempt_spans took late (now + 1000 * s + late (length steps)) steps"
| "attempt_spans took late now (_ # steps) = attempt_spans took late now steps"

text \<open>Every attempt but the first starts at least \<open>gap\<close> milliseconds after the end of
  the attempt before it.\<close>

fun spaced :: "nat \<Rightarrow> (nat \<times> nat) list \<Rightarrow> bool" where
  "spaced gap [] = True"
| "spaced gap [a] = True"
| "spaced gap (a # b # rest) = (snd a + gap \<le> fst b \<and> spaced gap (b # rest))"

definition attempts_of :: "reg_event list \<Rightarrow> nat list" where
  "attempts_of steps = concat (map (\<lambda>e. case e of Attempt n \<Rightarrow> [n] | _ \<Rightarrow> []) steps)"

section \<open>Digest authentication (WorkingSipManager and EnhancedSipManager)\<close>

text \<open>
  \<open>hashlib.md5(s.encode()).hexdigest()\<close> belongs to the Python library, not to the
  repository: it is the parameter \<open>md5hex\<close>, a function from the encoded string to the 32
  hexadecimal digits of its digest.
\<close>

text \<open>A value between double quotes, as the f-strings of both managers write the
  parameters of the header.\<close>

definition quoted :: "string \<Rightarrow> string" where
  "quoted s = [CHR 0x22] @ s @ [CHR 0x22]"

text \<open>\<open>_create_auth_register_message\<close>, from "Calculate digest response" to the
  Authorization header: the response hash and the header value, for the account's
  user name, password and domain and the challenge's realm and nonce.\<close>

definition register_response_hash ::
  "(string \<Rightarrow> string) \<Rightarrow> string \<Rightarrow> string \<Rightarrow> string \<Rightarrow> string \<Rightarrow> string \<Rightarrow> string" where
  "register_response_hash md5hex username password domain realm nonce =
     (let method = ''REGISTER'';
          uri = ''sip:'' @ domain;
          ha1 = md5hex (username @ '':'' @ realm @ '':'' @ password);
          ha2 = md5hex (method @ '':'' @ uri);
          response_hash = md5hex (ha1 @ '':'' @ nonce @ '':'' @ ha2)
      in response_hash)"

definition register_auth_header ::
  "(string \<Rightarrow> string) \<Rightarrow> string \<Rightarrow> string \<Rightarrow> string \<Rightarrow> string \<Rightarrow> string \<Rightarrow> string" where
  "register_auth_header md5hex username password domain realm nonce =
     (let uri = ''sip:'' @ domain;
          response_hash = register_response_hash md5hex username password domain realm nonce
      in ''Digest username='' @ quoted username @ '', realm='' @ quoted realm
         @ '', nonce='' @ quoted nonce @ '', uri='' @ quoted uri
         @ '', response='' @ quoted response_hash)"

text \<open>\<open>_create_auth_header\<close> of the enhanced manager, which takes the method and the URI
  from its caller.\<close>

definition create_auth_header ::
  "(string \<Rightarrow> string) \<Rightarrow> string \<Rightarrow> string \<Rightarrow> string \<Rightarrow> string \<Rightarrow> string \<Rightarrow> string \<Rightarrow> string" where
  "create_auth_header md5hex username password method uri realm nonce =
     (let ha1 = md5hex (username @ '':'' @ realm @ '':'' @ password);
          ha2 = md5hex (method @ '':'' @ uri);
          response_hash = md5hex (ha1 @ '':'' @ nonce @ '':'' @ ha2)
      in ''Digest username='' @ quoted username @ '', realm='' @ quoted realm
         @ '', nonce='' @ quoted nonce @ '', uri='' @ quoted uri
         @ '', response='' @ quoted response_hash)"

subsection \<open>The reference: RFC 2617, section 3.2.2, without \<open>qop\<close>\<close>

text \<open>
  The request digest is \<open>KD(H(A1), nonce ":" H(A2))\<close> with \<open>KD(secret, data) =
  H(secret ":" data)\<close>, \<open>A1 = user ":" realm ":" password\<close> and \<open>A2 = method ":" uri\<close>;
  \<open>H\<close> is MD5 in hexadecimal.  These definitions follow the RFC, not the code.
\<close>

definition rfc2617_A1 :: "string \<Rightarrow> string \<Rightarrow> string \<Rightarrow> string" where
  "rfc2617_A1 user realm passwd = user @ '':'' @ realm @ '':'' @ passwd"

definition rfc2617_A2 :: "string \<Rightarrow> string \<Rightarrow> string" where
  "rfc2617_A2 method uri = method @ '':'' @ uri"

definition rfc2617_KD :: "(string \<Rightarrow> string) \<Rightarrow> string \<Rightarrow> string \<Rightarrow> string" where
  "rfc2617_KD H secret data = H (secret @ '':'' @ data)"

definition rfc2617_request_digest ::
  "(string \<Rightarrow> string) \<Rightarrow> string \<Rightarrow> string \<Rightarrow> string \<Rightarrow> string \<Rightarrow> string \<Rightarrow> string \<Rightarrow> string" where
  "rfc2617_request_digest H user realm passwd nonce method uri =
     rfc2617_KD H (H (rfc2617_A1 user realm passwd)) (nonce @ '':'' @ H (rfc2617_A2 method uri))"

text \<open>The value of the \<open>response\<close> parameter of a header that ends with that
  parameter: the text after \<open>response=\<close>, without its quotes.\<close>

definition response_param :: "string \<Rightarrow> string \<Rightarrow> string \<Rightarrow> string \<Rightarrow> string \<Rightarrow> string" where
  "response_param header username realm nonce uri =
     butlast (drop (Suc (length (''Digest username='' @ quoted username @ '', realm=''
                                  @ quoted realm @ '', nonce='' @ quoted nonce @ '', uri=''
                                  @ quoted uri @ '', response=''))) header)"

section \<open>Properties of the RTP packet codec\<close>

subsection \<open>Python slicing and big-endian fields\<close>

lemma py_slice_prefix: "py_slice xs 0 12 = take 12 xs"
  by (simp add: py_slice_def py_clamp_def min_def)

lemma py_slice_window_length:
  "0 \<le> a \<Longrightarrow> a + 4 \<le> int (length xs) \<Longrightarrow> length (py_slice xs a (a + 4)) = 4"
  by (auto simp add: py_slice_def py_clamp_def Let_def min_def nat_add_distrib)

lemma py_slice_middle:
  "py_slice (xs @ ys @ zs) (int (length xs)) (int (length xs) + int (length ys)) = ys"
  by (simp add: py_slice_def py_clamp_def Let_def min_def nat_add_distrib)

lemma py_index_last: "xs \<noteq> [] \<Longrightarrow> py_index xs (- 1) = Inr (last xs)"
  by (cases xs rule: rev_cases) (auto simp add: py_index_def nat_add_distrib nth_append)

lemma be_decode_single: "be_decode [b] = uint b"
  by (simp add: be_decode_def)

lemma be_decode_2: "be_decode [a, b] = uint a * 256 + uint b"
  by (simp add: be_decode_def)

lemma be_decode_4:
  "be_decode [a, b, c, d] = ((uint a * 256 + uint b) * 256 + uint c) * 256 + uint d"
  by (simp add: be_decode_def)

lemma be_encode_1: "be_encode 1 x = [word_of_int x]"
  by (simp add: be_encode_def)

lemma be_encode_2: "be_encode 2 x = [word_of_int (x div 256), word_of_int x]"
  by (simp add: be_encode_def upt_rec numeral_eq_Suc drop_bit_eq_div)

lemma be_encode_4:
  "be_encode 4 x = [word_of_int (x div 16777216), word_of_int (x div 65536),
                    word_of_int (x div 256), word_of_int x]"
  by (simp add: be_encode_def upt_rec numeral_eq_Suc drop_bit_eq_div)

lemma uint_byte_of_int: "uint (word_of_int k :: byte) = k mod 256"
  by (simp add: uint_word_of_int_eq take_bit_eq_mod)

lemma be_roundtrip_4:
  assumes "0 \<le> x" "x < 4294967296"
  shows "be_decode (be_encode 4 x) = x"
proof -
  have a: "x div 256 * 256 + x mod 256 = x"
    by (rule div_mult_mod_eq)
  have b: "x div 65536 * 256 + x div 256 mod 256 = x div 256"
    using div_mult_mod_eq [of "x div 256" 256] zdiv_zmult2_eq [of 256 x 256] by simp
  have c: "x div 16777216 * 256 + x div 65536 mod 256 = x div 65536"
    using div_mult_mod_eq [of "x div 65536" 256] zdiv_zmult2_eq [of 256 x 65536] by simp
  have "0 \<le> x div 16777216"
    using assms by (simp add: pos_imp_zdiv_nonneg_iff)
  moreover have "x div 16777216 < 256"
    using assms zdiv_mono1 [of x 4294967295 16777216] by simp
  ultimately have d: "x div 16777216 mod 256 = x div 16777216"
    by simp
  show ?thesis
    by (simp only: be_encode_4 be_decode_4 uint_byte_of_int d c b a)
qed

lemma and_ffffffff: "(x::int) AND 0xFFFFFFFF = x mod 4294967296"
proof -
  have "(0xFFFFFFFF::int) = mask 32" by (simp add: mask_eq_exp_minus_1)
  then show ?thesis by (simp only: flip: take_bit_eq_mask) (simp add: take_bit_eq_mod)
qed

lemma and_ffff: "(x::int) AND 0xFFFF = x mod 65536"
proof -
  have "(0xFFFF::int) = mask 16" by (simp add: mask_eq_exp_minus_1)
  then show ?thesis by (simp only: flip: take_bit_eq_mask) (simp add: take_bit_eq_mod)
qed

subsection \<open>The parser in terms of the header fields\<close>

lemma parse_rtp_body_header:
  assumes "12 \<le> length packet"
  shows "parse_rtp_body packet =
     (if int (length packet) < 12 + rtp_csrc_count packet * 4 then Inr (rtp_pt packet, None)
      else rtp_skip_extension packet (rtp_pt packet) (rtp_padding packet) (rtp_extension packet)
             (12 + rtp_csrc_count packet * 4))"
proof -
  have b1: "take (Suc 0) packet = [packet ! 0]"
    using assms by (cases packet) auto
  have b2: "take (Suc 0) (drop (Suc 0) (take 12 packet)) = [packet ! 1]"
    using assms by (cases packet; cases "tl packet") auto
  show ?thesis
    using assms
    by (simp add: parse_rtp_body_def struct_unpack_BBHII_def py_slice_prefix b1 b2
        be_decode_single Let_def rtp_csrc_count_def rtp_pt_def rtp_padding_def
        rtp_extension_def rtp_b1_def)
qed

lemma rtp_strip_padding_returns:
  "packet \<noteq> [] \<Longrightarrow> \<exists>pl. rtp_strip_padding packet pt padding offset = Inr (pt, pl)"
  by (simp add: rtp_strip_padding_def py_index_last Let_def)

lemma rtp_skip_extension_returns:
  assumes "packet \<noteq> []" and "0 \<le> offset"
  shows "\<exists>pl. rtp_skip_extension packet pt padding extension offset = Inr (pt, pl)"
proof (cases "extension \<noteq> 0 \<and> \<not> int (length packet) < offset + 4")
  case True
  then have "length (py_slice packet offset (offset + 4)) = 4"
    using assms(2) by (simp add: py_slice_window_length)
  then show ?thesis
    using True rtp_strip_padding_returns [OF assms(1)]
    by (simp add: rtp_skip_extension_def struct_unpack_HH_def Let_def)
next
  case False
  then show ?thesis
    using rtp_strip_padding_returns [OF assms(1)]
    by (auto simp add: rtp_skip_extension_def)
qed

lemma rtp_skip_extension_overrun:
  assumes "0 \<le> offset" and "extension \<noteq> 0"
    and "int (length packet) < offset + 4 \<or>
         int (length packet) < offset + 4 +
           be_decode (take 2 (drop 2 (py_slice packet offset (offset + 4)))) * 4"
  shows "rtp_skip_extension packet pt padding extension offset = Inr (pt, None)"
proof (cases "int (length packet) < offset + 4")
  case True
  then show ?thesis using assms(2) by (simp add: rtp_skip_extension_def)
next
  case False
  then have "length (py_slice packet offset (offset + 4)) = 4"
    using assms(1) by (simp add: py_slice_window_length)
  then show ?thesis
    using False assms(2,3)
    by (simp add: rtp_skip_extension_def struct_unpack_HH_def Let_def)
qed

lemma rtp_csrc_count_nonneg: "0 \<le> rtp_csrc_count packet"
  by (simp add: rtp_csrc_count_def)

lemma parse_rtp_body_returns: "\<exists>pt pl. parse_rtp_body packet = Inr (pt, pl)"
proof (cases "length packet < 12")
  case True
  then show ?thesis by (simp add: parse_rtp_body_def)
next
  case False
  then have ne: "packet \<noteq> []" and len: "12 \<le> length packet" by auto
  have nonneg: "0 \<le> 12 + rtp_csrc_count packet * 4"
    using rtp_csrc_count_nonneg [of packet] by simp
  show ?thesis
    using rtp_skip_extension_returns [OF ne nonneg, of "rtp_pt packet" "rtp_padding packet"
        "rtp_extension packet"]
    by (auto simp add: parse_rtp_body_header [OF len])
qed

lemma parse_rtp_short: "length packet < 12 \<Longrightarrow> parse_rtp_header_and_payload packet = (0, None)"
  by (simp add: parse_rtp_header_and_payload_def parse_rtp_body_def)

lemma parse_rtp_csrc_overrun:
  assumes "12 \<le> length packet" and "int (length packet) < 12 + rtp_csrc_count packet * 4"
  shows "parse_rtp_header_and_payload packet = (rtp_pt packet, None)"
  using assms by (simp add: parse_rtp_header_and_payload_def parse_rtp_body_header)

lemma parse_rtp_extension_overrun:
  assumes "12 \<le> length packet" and "rtp_extension packet \<noteq> 0"
    and "int (length packet) < 12 + rtp_csrc_count packet * 4 + 4 \<or>
         int (length packet) < 12 + rtp_csrc_count packet * 4 + 4 + rtp_ext_len_words packet * 4"
  shows "parse_rtp_header_and_payload packet = (rtp_pt packet, None)"
proof (cases "int (length packet) < 12 + rtp_csrc_count packet * 4")
  case True
  then show ?thesis using assms(1) by (rule parse_rtp_csrc_overrun [rotated])
next
  case False
  have nonneg: "0 \<le> 12 + rtp_csrc_count packet * 4"
    using rtp_csrc_count_nonneg [of packet] by simp
  have "rtp_skip_extension packet (rtp_pt packet) (rtp_padding packet) (rtp_extension packet)
          (12 + rtp_csrc_count packet * 4) = Inr (rtp_pt packet, None)"
    using assms(3) by (intro rtp_skip_extension_overrun [OF nonneg assms(2)])
      (simp add: rtp_ext_len_words_def Let_def)
  then show ?thesis
    using False assms(1) by (simp add: parse_rtp_header_and_payload_def parse_rtp_body_header)
qed

subsection \<open>The parser never raises\<close>

text \<open>
  Claim C10.  The RTP header parser is total on arbitrary byte strings: the body of its
  \<open>try\<close> block raises no exception on any input, so the parser returns the pair
  (payload type, optional payload) that the body computes; every input shorter than 12
  bytes yields \<open>(0, None)\<close>; and every packet whose announced CSRC list, or whose
  extension header (its 4 fixed bytes or the words it announces), extends past the end of
  the packet yields \<open>(payload type, None)\<close>.
\<close>

theorem rtp_parser_total:
  "(\<exists>pt pl. parse_rtp_body packet = Inr (pt, pl) \<and> parse_rtp_header_and_payload packet = (pt, pl))
   \<and> (length packet < 12 \<longrightarrow> parse_rtp_header_and_payload packet = (0, None))
   \<and> (12 \<le> length packet \<and> int (length packet) < 12 + rtp_csrc_count packet * 4
        \<longrightarrow> parse_rtp_header_and_payload packet = (rtp_pt packet, None))
   \<and> (12 \<le> length packet \<and> rtp_extension packet \<noteq> 0 \<and>
        (int (length packet) < 12 + rtp_csrc_count packet * 4 + 4 \<or>
         int (length packet) < 12 + rtp_csrc_count packet * 4 + 4 + rtp_ext_len_words packet * 4)
        \<longrightarrow> parse_rtp_header_and_payload packet = (rtp_pt packet, None))"
proof (intro conjI impI)
  obtain pt pl where "parse_rtp_body packet = Inr (pt, pl)"
    using parse_rtp_body_returns by blast
  then show "\<exists>pt pl. parse_rtp_body packet = Inr (pt, pl) \<and>
      parse_rtp_header_and_payload packet = (pt, pl)"
    by (simp add: parse_rtp_header_and_payload_def)
next
  assume "length packet < 12"
  then show "parse_rtp_header_and_payload packet = (0, None)"
    by (rule parse_rtp_short)
next
  assume "12 \<le> length packet \<and> int (length packet) < 12 + rtp_csrc_count packet * 4"
  then show "parse_rtp_header_and_payload packet = (rtp_pt packet, None)"
    by (simp add: parse_rtp_csrc_overrun)
next
  assume "12 \<le> length packet \<and> rtp_extension packet \<noteq> 0 \<and>
        (int (length packet) < 12 + rtp_csrc_count packet * 4 + 4 \<or>
         int (length packet) < 12 + rtp_csrc_count packet * 4 + 4 + rtp_ext_len_words packet * 4)"
  then show "parse_rtp_header_and_payload packet = (rtp_pt packet, None)"
    using parse_rtp_extension_overrun [of packet] by blast
qed

theorem rtp_parser_total_witness:
  "length short_packet < 12 \<and> parse_rtp_header_and_payload short_packet = (0, None)
   \<and> 12 \<le> length csrc_overrun_packet
   \<and> int (length csrc_overrun_packet) < 12 + rtp_csrc_count csrc_overrun_packet * 4
   \<and> parse_rtp_header_and_payload csrc_overrun_packet = (8, None)
   \<and> 12 \<le> length ext_overrun_packet \<and> rtp_extension ext_overrun_packet \<noteq> 0
   \<and> int (length ext_overrun_packet)
        < 12 + rtp_csrc_count ext_overrun_packet * 4 + 4 + rtp_ext_len_words ext_overrun_packet * 4
   \<and> parse_rtp_header_and_payload ext_overrun_packet = (8, None)"
proof -
  have a: "length short_packet < 12" by (simp add: short_packet_def)
  have b: "12 \<le> length csrc_overrun_packet \<and>
           int (length csrc_overrun_packet) < 12 + rtp_csrc_count csrc_overrun_packet * 4"
    by (simp add: csrc_overrun_packet_def rtp_csrc_count_def rtp_b1_def)
  have c: "12 \<le> length ext_overrun_packet \<and> rtp_extension ext_overrun_packet \<noteq> 0"
    by code_simp
  have d: "int (length ext_overrun_packet)
          < 12 + rtp_csrc_count ext_overrun_packet * 4 + 4 + rtp_ext_len_words ext_overrun_packet * 4"
    by code_simp
  have pt1: "rtp_pt csrc_overrun_packet = 8" by code_simp
  have pt2: "rtp_pt ext_overrun_packet = 8" by code_simp
  show ?thesis
    using rtp_parser_total [of short_packet] rtp_parser_total [of csrc_overrun_packet]
      rtp_parser_total [of ext_overrun_packet] a b c d pt1 pt2
    by simp
qed

subsection \<open>CSRC list and padding\<close>

lemma parse_rtp_csrc_padding_all:
  assumes len: "length header = 12" "length csrc = 8" "length pad = 4"
    and pad: "last pad = 4"
    and pk: "packet = header @ csrc @ payload @ pad"
    and cc: "rtp_csrc_count packet = 2"
    and ext: "rtp_extension packet = 0"
    and padbit: "rtp_padding packet \<noteq> 0"
  shows "parse_rtp_header_and_payload packet
           = (rtp_pt packet, Some (if payload = [] then pad else payload))"
proof -
  have l: "length packet = 24 + length payload"
    using len pk by simp
  have "pad \<noteq> []" using len by auto
  then have "packet \<noteq> []" and "last packet = 4"
    using pk pad by simp_all
  then have lst: "py_index packet (- 1) = Inr 4"
    by (simp add: py_index_last)
  have sl: "py_slice packet 20 (20 + int (length payload)) = payload"
    using py_slice_middle [of "header @ csrc" payload pad] pk len by simp
  have sl0: "payload = [] \<Longrightarrow> py_slice packet 20 24 = pad"
    using py_slice_middle [of "header @ csrc" pad "[]"] pk len by simp
  have "rtp_strip_padding packet (rtp_pt packet) (rtp_padding packet) 20
          = Inr (rtp_pt packet, Some (if payload = [] then pad else payload))"
    using padbit sl sl0 by (simp add: rtp_strip_padding_def lst l Let_def)
  then show ?thesis
    using l cc ext
    by (simp add: parse_rtp_header_and_payload_def parse_rtp_body_header rtp_skip_extension_def)
qed

text \<open>
  Claim C6 at the datagram of 24 bytes whose header announces 2 CSRC entries, has the
  padding bit set and the extension bit clear, and whose last byte is 4.  The CSRC list
  ends at offset 20 and the 4 padding bytes start at offset 20, so no byte lies between
  them; the claim's payload is empty.  The parser returns the four padding bytes as the
  payload: under "Handle padding" the test \<open>padlen < end - offset\<close> is \<open>4 < 4\<close>, so \<open>end\<close>
  stays 24 and \<open>packet[20:24]\<close> comes back.  The padding count of RFC 3550 includes the
  count byte itself, so a padded packet without payload has \<open>padlen = end - offset\<close>, and
  the comparison leaves out exactly that case.  With the three payload bytes 9, 8, 7
  between the CSRC list and the padding, the parser returns those three bytes.
\<close>

theorem rtp_padding_returned_as_payload:
  "length padding_only_packet = 24
   \<and> rtp_csrc_count padding_only_packet = 2
   \<and> rtp_extension padding_only_packet = 0
   \<and> rtp_padding padding_only_packet = 1
   \<and> py_index padding_only_packet (- 1) = Inr 4
   \<and> py_slice padding_only_packet 20 (24 - 4) = []
   \<and> py_slice padding_only_packet (24 - 4) 24 = padded_pad
   \<and> parse_rtp_header_and_payload padding_only_packet = (8, Some padded_pad)
   \<and> parse_rtp_header_and_payload (padded_header @ padded_csrc @ padded_payload @ padded_pad)
       = (8, Some padded_payload)"
  by code_simp

text \<open>
  The extent of the defect.  For every RTP packet made of a 12-byte header, an 8-byte
  CSRC list, a payload and 4 padding bytes whose last byte is 4, whose header announces
  2 CSRC entries, has the padding bit set and the extension bit clear, the parser
  returns the header's payload type and exactly the payload, without the CSRC list and
  without the padding, when the payload has at least one byte; when the payload is empty
  it returns the padding.
\<close>

theorem rtp_padding_stripped_unless_no_payload:
  assumes "length header = 12" and "length csrc = 8" and "length pad = 4"
    and "last pad = 4"
    and "rtp_csrc_count (header @ csrc @ payload @ pad) = 2"
    and "rtp_extension (header @ csrc @ payload @ pad) = 0"
    and "rtp_padding (header @ csrc @ payload @ pad) \<noteq> 0"
  shows "parse_rtp_header_and_payload (header @ csrc @ payload @ pad)
           = (rtp_pt (header @ csrc @ payload @ pad),
              Some (if payload = [] then pad else payload))"
  using assms by (intro parse_rtp_csrc_padding_all [where header = header and csrc = csrc
        and pad = pad]) simp_all

theorem rtp_padding_stripped_unless_no_payload_witness:
  "parse_rtp_header_and_payload (padded_header @ padded_csrc @ [9] @ padded_pad) = (8, Some [9])
   \<and> parse_rtp_header_and_payload (padded_header @ padded_csrc @ [] @ padded_pad)
       = (8, Some padded_pad)"
proof -
  have f: "rtp_pt (padded_header @ padded_csrc @ p @ padded_pad) = 8"
    "rtp_csrc_count (padded_header @ padded_csrc @ p @ padded_pad) = 2"
    "rtp_extension (padded_header @ padded_csrc @ p @ padded_pad) = 0"
    "rtp_padding (padded_header @ padded_csrc @ p @ padded_pad) \<noteq> 0" for p
    by (simp_all add: rtp_pt_def rtp_csrc_count_def rtp_extension_def rtp_padding_def rtp_b1_def
        padded_header_def)
  have g: "length padded_header = 12" "length padded_csrc = 8" "length padded_pad = 4"
    "last padded_pad = 4"
    by (simp_all add: padded_header_def padded_csrc_def padded_pad_def)
  show ?thesis
    using rtp_padding_stripped_unless_no_payload [OF g f(2,3,4), of "[9]"]
      rtp_padding_stripped_unless_no_payload [OF g f(2,3,4), of "[]"]
      f(1) [of "[9]"] f(1) [of "[]"]
    by simp
qed

text \<open>
  An extension header between the CSRC list and the payload is skipped as well: with
  the extension bit set and an extension of one word, the parser returns the three
  payload bytes that follow the extension data, without the CSRC list, the extension
  and the padding.
\<close>

theorem rtp_extension_header_skipped:
  "rtp_extension (extended_header @ padded_csrc @ extension_block @ padded_payload @ padded_pad) = 1
   \<and> rtp_ext_len_words
        (extended_header @ padded_csrc @ extension_block @ padded_payload @ padded_pad) = 1
   \<and> parse_rtp_header_and_payload
       (extended_header @ padded_csrc @ extension_block @ padded_payload @ padded_pad)
     = (8, Some padded_payload)"
  by code_simp

subsection \<open>Packetizing and parsing at the wrap-around\<close>

lemma be_encode_Suc_0: "be_encode (Suc 0) x = [word_of_int x]"
  by (simp add: be_encode_def)

lemma be_encode_length: "length (be_encode n x) = n"
  by (simp add: be_encode_def)

lemma rtp_header_length: "length (rtp_header s t X) = 12"
  by (simp add: rtp_header_def be_encode_length)

lemma create_rtp_packet_pt0:
  assumes "0 \<le> X" "X < 4294967296"
  shows "create_rtp_packet sq ts X P 0 =
     Inr (rtp_header (sq mod 65536) (ts mod 4294967296) X @ P)"
  using assms
  by (simp add: create_rtp_packet_def struct_pack_BBHII_def pack_field_def and_ffff and_ffffffff
      be_encode_Suc_0 Let_def rtp_header_def)

lemma unpack_rtp_header:
  assumes "0 \<le> X" "X < 4294967296" "0 \<le> t" "t < 4294967296" "0 \<le> s" "s < 65536"
  shows "struct_unpack_BBHII (py_slice (rtp_header s t X @ P) 0 12) = Inr (0x80, 0, s, t, X)"
proof -
  have x: "be_decode (be_encode 4 X) = X" and t: "be_decode (be_encode 4 t) = t"
    using assms by (simp_all add: be_roundtrip_4)
  have s: "be_decode (be_encode 2 s) = s"
    using assms by (simp add: be_encode_2 be_decode_2 uint_byte_of_int)
  show ?thesis
    using x t s
    by (simp add: struct_unpack_BBHII_def py_slice_prefix be_encode_length be_decode_single
        rtp_header_def)
qed

lemma parse_plain_packet:
  assumes "P \<noteq> []"
  shows "parse_rtp_header_and_payload (rtp_header s t X @ P) = (0, Some P)"
proof -
  let ?pk = "rtp_header s t X @ P"
  have len: "12 \<le> length ?pk" "length ?pk = 12 + length P"
    by (simp_all add: rtp_header_length)
  have f: "rtp_csrc_count ?pk = 0" "rtp_pt ?pk = 0" "rtp_extension ?pk = 0" "rtp_padding ?pk = 0"
    by (simp_all add: rtp_csrc_count_def rtp_pt_def rtp_extension_def rtp_padding_def rtp_b1_def
        rtp_header_def)
  have sl: "py_slice ?pk 12 (12 + int (length P)) = P"
    using py_slice_middle [of "rtp_header s t X" P "[]"] by (simp add: rtp_header_length)
  show ?thesis
    using assms sl
    by (simp add: parse_rtp_header_and_payload_def parse_rtp_body_header [OF len(1)] f
        rtp_skip_extension_def rtp_strip_padding_def rtp_header_length Let_def)
qed

text \<open>
  Claim C5, as stated, fails for an empty payload: the packet is the bare 12-byte header,
  and the parser returns no payload (\<open>None\<close>) for it, not the empty payload, since
  \<open>offset >= end\<close>.
\<close>

theorem rtp_roundtrip_empty_payload_counterexample:
  "create_rtp_packet 65535 4294967295 1 [] 0 = Inr empty_payload_packet
   \<and> parse_rtp_header_and_payload empty_payload_packet = (0, None)"
  by code_simp

text \<open>
  Claim C5, amended.  For a 32-bit SSRC \<open>X\<close> and a non-empty payload \<open>P\<close>, packetizing a
  frame with sequence 65535, timestamp 4294967295, SSRC \<open>X\<close>, payload \<open>P\<close> and payload type
  0 yields a packet of 12 header bytes followed by \<open>P\<close>; its header unpacks to sequence
  65535, timestamp 4294967295 and SSRC \<open>X\<close>, and the parser returns payload type 0 and
  payload \<open>P\<close>.  After the send the stream counters are (65535 + 1) mod 2^16 = 0 and
  (4294967295 + 160) mod 2^32 = 159, and the next frame carries them.
\<close>

theorem rtp_roundtrip_and_wraparound:
  assumes "0 \<le> X" and "X < 2 ^ 32" and "P \<noteq> []"
  shows "\<exists>packet stream'.
      create_rtp_packet 65535 4294967295 X P 0 = Inr packet
    \<and> send_frame \<lparr>sequence = 65535, timestamp = 4294967295, ssrc = X, payload_type = 0,
                   tx_count = n\<rparr> P = Inr (packet, stream')
    \<and> length packet = 12 + length P
    \<and> struct_unpack_BBHII (py_slice packet 0 12) = Inr (0x80, 0, 65535, 4294967295, X)
    \<and> parse_rtp_header_and_payload packet = (0, Some P)
    \<and> sequence stream' = (65535 + 1) mod 2 ^ 16 \<and> sequence stream' = 0
    \<and> timestamp stream' = (4294967295 + 160) mod 2 ^ 32 \<and> timestamp stream' = 159
    \<and> (\<exists>packet' stream''.
          send_frame stream' P' = Inr (packet', stream'')
        \<and> struct_unpack_BBHII (py_slice packet' 0 12) = Inr (0x80, 0, 0, 159, X))"
proof -
  have X: "0 \<le> X" "X < 4294967296" using assms by simp_all
  let ?s = "\<lparr>sequence = 65535, timestamp = 4294967295, ssrc = X, payload_type = 0, tx_count = n\<rparr>"
  let ?s' = "\<lparr>sequence = 0, timestamp = 159, ssrc = X, payload_type = 0, tx_count = n + 1\<rparr>"
  let ?pk = "rtp_header 65535 4294967295 X @ P"
  let ?pk' = "rtp_header 0 159 X @ P'"
  have c: "create_rtp_packet 65535 4294967295 X P 0 = Inr ?pk"
    using create_rtp_packet_pt0 [OF X, of 65535 4294967295 P] by simp
  have c': "create_rtp_packet 0 159 X P' 0 = Inr ?pk'"
    using create_rtp_packet_pt0 [OF X, of 0 159 P'] by simp
  have s: "send_frame ?s P = Inr (?pk, ?s')"
    by (simp add: send_frame_def c chunk_size_def and_ffff and_ffffffff)
  have s': "send_frame ?s' P' = Inr (?pk', ?s'\<lparr>sequence := 1, timestamp := 319, tx_count := n + 2\<rparr>)"
    by (simp add: send_frame_def c' chunk_size_def and_ffff and_ffffffff)
  have u: "struct_unpack_BBHII (py_slice ?pk 0 12) = Inr (0x80, 0, 65535, 4294967295, X)"
    using unpack_rtp_header [OF X, of 4294967295 65535 P] by simp
  have u': "struct_unpack_BBHII (py_slice ?pk' 0 12) = Inr (0x80, 0, 0, 159, X)"
    using unpack_rtp_header [OF X, of 159 0 P'] by simp
  have p: "parse_rtp_header_and_payload ?pk = (0, Some P)"
    using assms(3) by (rule parse_plain_packet)
  have l: "length ?pk = 12 + length P"
    by (simp add: rtp_header_length)
  show ?thesis
    using c s s' u u' p l by auto
qed

theorem rtp_roundtrip_and_wraparound_witness:
  "\<exists>packet stream'.
      create_rtp_packet 65535 4294967295 0x12345678 [0xFF, 0x7F] 0 = Inr packet
    \<and> send_frame \<lparr>sequence = 65535, timestamp = 4294967295, ssrc = 0x12345678,
                   payload_type = 0, tx_count = 0\<rparr> [0xFF, 0x7F] = Inr (packet, stream')
    \<and> struct_unpack_BBHII (py_slice packet 0 12) = Inr (0x80, 0, 65535, 4294967295, 0x12345678)
    \<and> parse_rtp_header_and_payload packet = (0, Some [0xFF, 0x7F])
    \<and> sequence stream' = 0 \<and> timestamp stream' = 159
    \<and> (\<exists>packet' stream''.
          send_frame stream' [0x01] = Inr (packet', stream'')
        \<and> struct_unpack_BBHII (py_slice packet' 0 12) = Inr (0x80, 0, 0, 159, 0x12345678))"
proof -
  have "(0::int) \<le> 0x12345678" and "(0x12345678::int) < 2 ^ 32"
    and "[0xFF, 0x7F] \<noteq> ([]::bytes)"
    by simp_all
  from rtp_roundtrip_and_wraparound [OF this, of 0 "[0x01]"] show ?thesis
    by blast
qed

section \<open>Properties of the G.711 codec\<close>

lemma g711_step_test_samples:
  "map (g711_step PCMU) pcm_test_samples = [1024, 8, 8, 8, 1024]"
  "map (g711_step PCMA) pcm_test_samples = [1024, 16, 16, 16, 1024]"
  by code_simp+

text \<open>
  Claim C4.  For each of the 16-bit samples -32768, -1, 0, 1, 32767 and for both codecs
  (PCMU: \<open>lin2ulaw\<close> then \<open>ulaw2lin\<close>; PCMA: \<open>lin2alaw\<close> then \<open>alaw2lin\<close>), encoding the
  sample and decoding the code raises no exception and yields exactly one value, which
  is a signed 16-bit value and differs from the sample by at most the G.711 quantization
  step of the sample's segment (8 for PCMU and 16 for PCMA around zero, 1024 at full
  scale).  The decoded values are -32124, 0, 0, 8, 32124 for PCMU and -32256, -8, 8, 8,
  32256 for PCMA.
\<close>

theorem g711_roundtrip_test_samples:
  "map (g711_roundtrip PCMU) pcm_test_samples
     = [Inr [- 32124], Inr [0], Inr [0], Inr [8], Inr [32124]]
   \<and> map (g711_roundtrip PCMA) pcm_test_samples
     = [Inr [- 32256], Inr [- 8], Inr [8], Inr [8], Inr [32256]]
   \<and> list_all (within_g711_bound PCMU) pcm_test_samples
   \<and> list_all (within_g711_bound PCMA) pcm_test_samples"
  by code_simp

text \<open>
  Away from the five samples the \<mu>-law pair is not the G.711 codec: the round trip of
  the sample 1000 yields 4092, far outside the step 64 of its segment, while the A-law
  pair yields 1008.
\<close>

theorem lin2ulaw_midrange:
  "g711_roundtrip PCMU 1000 = Inr [4092] \<and> g711_step PCMU 1000 = 64
   \<and> \<not> within_g711_bound PCMU 1000
   \<and> g711_roundtrip PCMA 1000 = Inr [1008] \<and> within_g711_bound PCMA 1000"
  by code_simp

section \<open>Properties of codec selection\<close>

lemma invite_choose_pt:
  "fst (invite_choose_codec pts rtpmap) = (if 0 \<in> set pts then 0 else if 8 \<in> set pts then 8 else 0)"
  by (simp add: invite_choose_codec_def Let_def)

lemma outgoing_choose_pt:
  "fst (outgoing_choose_codec pts rtpmap) = (if 0 \<in> set pts then 0 else if 8 \<in> set pts then 8 else 0)"
  by (cases pts) (auto simp add: outgoing_choose_codec_def response_choose_codec_def
      negotiated_media_def)

lemma outgoing_choose_codec_static:
  "outgoing_choose_codec pts Map.empty =
     (if 0 \<in> set pts then (0, ''PCMU'') else if 8 \<in> set pts then (8, ''PCMA'') else (0, ''PCMU''))"
  by (cases pts) (auto simp add: outgoing_choose_codec_def response_choose_codec_def
      negotiated_media_def dict_get_def)

lemma invite_choose_codec_static:
  "invite_choose_codec pts Map.empty =
     (if 0 \<in> set pts then (0, ''PCMU'') else if 8 \<in> set pts then (8, ''PCMU'') else (0, ''PCMU''))"
  by (simp add: invite_choose_codec_def dict_get_def Let_def)

text \<open>
  Claim C7 at the offer \<open>m=audio <port> RTP/AVP 8\<close> without an \<open>a=rtpmap\<close> line (payload
  type 8 is static and needs none): the 200 OK parsing path selects payload type 8 with
  codec PCMA, as the claim says, but the incoming-INVITE path selects payload type 8
  with codec name PCMU, for which the sending thread encodes \<mu>-law.  On the offers
  \<open>[0, 8]\<close>, \<open>[]\<close> and \<open>[96]\<close> both paths select PCMU with payload type 0.
\<close>

theorem invite_codec_for_static_pcma:
  "invite_choose_codec [8] Map.empty = (8, ''PCMU'')
   \<and> stream_encoder (snd (invite_choose_codec [8] Map.empty)) = PCMU
   \<and> outgoing_choose_codec [8] Map.empty = (8, ''PCMA'')
   \<and> stream_encoder (snd (outgoing_choose_codec [8] Map.empty)) = PCMA
   \<and> invite_choose_codec [0, 8] Map.empty = (0, ''PCMU'')
   \<and> outgoing_choose_codec [0, 8] Map.empty = (0, ''PCMU'')
   \<and> invite_choose_codec [] Map.empty = (0, ''PCMU'')
   \<and> outgoing_choose_codec [] Map.empty = (0, ''PCMU'')
   \<and> invite_choose_codec [96] Map.empty = (0, ''PCMU'')
   \<and> outgoing_choose_codec [96] Map.empty = (0, ''PCMU'')"
  by (simp add: invite_choose_codec_static outgoing_choose_codec_static stream_encoder_def)

text \<open>
  The payload type, as opposed to the codec name, follows the selection policy in both
  paths and for every offer: 0 when 0 is offered, else 8 when 8 is offered, else 0.
\<close>

theorem payload_type_selection:
  "fst (invite_choose_codec pts rtpmap)
     = (if 0 \<in> set pts then 0 else if 8 \<in> set pts then 8 else 0)
   \<and> fst (outgoing_choose_codec pts rtpmap)
     = (if 0 \<in> set pts then 0 else if 8 \<in> set pts then 8 else 0)"
  by (simp add: invite_choose_pt outgoing_choose_pt)

section \<open>Properties of the deferred answer\<close>

lemma answer_deferred_call_False:
  "fst (answer_deferred_call m cid) = False \<Longrightarrow> snd (answer_deferred_call m cid) = m"
  by (auto simp add: answer_deferred_call_def Let_def split: option.splits if_splits)

lemma answer_deferred_call_not_eligible:
  assumes "\<And>ci. active_calls m cid = Some ci \<Longrightarrow>
             state ci \<noteq> RINGING \<or> \<not> deferred_answer ci \<or> \<not> incoming ci"
  shows "answer_deferred_call m cid = (False, m)"
  using assms by (auto simp add: answer_deferred_call_def split: option.splits)

lemma active_calls_notify_state [simp]: "active_calls (notify_state m c s t) = active_calls m"
  by (simp add: notify_state_def)

lemma sent_notify_state [simp]: "sent (notify_state m c s t) = sent m"
  by (simp add: notify_state_def)

lemma sockets_notify_state [simp]: "sockets (notify_state m c s t) = sockets m"
  by (simp add: notify_state_def)

lemma answer_deferred_call_True:
  assumes "answer_deferred_call m cid = (True, m')"
  shows "\<exists>ci invite addr acct sock.
           active_calls m cid = Some ci \<and> incoming ci \<and> deferred_answer ci \<and> state ci = RINGING
         \<and> raw_invite ci = Some invite \<and> invite \<noteq> [] \<and> sip_addr ci = Some addr
         \<and> account_id ci = Some acct \<and> sockets m acct = Some sock \<and> \<not> sendto_raises sock
         \<and> active_calls m' = (active_calls m)(cid \<mapsto> ci\<lparr>deferred_answer := False, state := ANSWERED\<rparr>)
         \<and> sent m' = sent m @ [(acct, ok200_for ci invite (contact_port sock), addr)]"
  using assms
  by (auto simp add: answer_deferred_call_def Let_def split: option.split_asm if_split_asm)

lemma answer_deferred_call_twice:
  assumes "answer_deferred_call m cid = (True, m')"
  shows "answer_deferred_call m' cid = (False, m')"
proof -
  obtain ci where "active_calls m' = (active_calls m)(cid \<mapsto> ci\<lparr>deferred_answer := False, state := ANSWERED\<rparr>)"
    using answer_deferred_call_True [OF assms] by blast
  then show ?thesis
    by (intro answer_deferred_call_not_eligible) auto
qed

lemma answer_times_not_eligible:
  assumes "\<And>ci. active_calls m cid = Some ci \<Longrightarrow>
             state ci \<noteq> RINGING \<or> \<not> deferred_answer ci \<or> \<not> incoming ci"
  shows "answer_times n m cid = (replicate n False, m)"
  using assms
  by (induction n) (simp_all add: answer_deferred_call_not_eligible)

lemma answer_times_at_most_once:
  "length (filter (\<lambda>ok. ok) (fst (answer_times n m cid))) \<le> 1
   \<and> length (sent (snd (answer_times n m cid))) \<le> length (sent m) + 1"
proof (induction n arbitrary: m)
  case 0
  then show ?case by simp
next
  case (Suc n)
  obtain ok m1 where a: "answer_deferred_call m cid = (ok, m1)"
    by (cases "answer_deferred_call m cid")
  show ?case
  proof (cases ok)
    case True
    obtain ci where c: "active_calls m1 = (active_calls m)(cid \<mapsto> ci\<lparr>deferred_answer := False, state := ANSWERED\<rparr>)"
      and s: "length (sent m1) = length (sent m) + 1"
      using answer_deferred_call_True [of m cid m1] a True by auto
    have "answer_times n m1 cid = (replicate n False, m1)"
      using c by (intro answer_times_not_eligible) auto
    then show ?thesis
      using a True s by simp
  next
    case False
    then have "m1 = m"
      using a answer_deferred_call_False [of m cid] by simp
    then show ?thesis
      using a False Suc.IH [of m] by (cases "answer_times n m cid") simp
  qed
qed

lemma answer_deferred_call_succeeds:
  assumes "active_calls m cid = Some ci" and "incoming ci" and "deferred_answer ci"
    and "state ci = RINGING" and "raw_invite ci = Some invite" and "invite \<noteq> []"
    and "sip_addr ci = Some addr" and "account_id ci = Some acct"
    and "sockets m acct = Some sock" and "\<not> sendto_raises sock"
  shows "fst (answer_deferred_call m cid) = True"
  using assms by (simp add: answer_deferred_call_def Let_def)

text \<open>
  Claim C3.  \<open>answer_deferred_call\<close> returns true only for a call that exists, is
  incoming, is marked deferred and is RINGING; it then has sent exactly one datagram, the
  200 OK with SDP built from the stored INVITE, and moved the call to ANSWERED with the
  deferred mark cleared.  For every call that is missing, not RINGING, not deferred or
  not incoming (so also for an answered one) it returns false and leaves the manager,
  with its call sessions and its list of sent datagrams, unchanged; the same holds
  whenever it returns false.  Calling it again after a successful answer returns false
  and changes nothing, and among any number of consecutive calls at most one returns
  true and at most one datagram is sent.
\<close>

theorem answer_deferred_call_idempotent:
  "(answer_deferred_call m cid = (True, m') \<longrightarrow>
      (\<exists>ci invite addr acct sock.
         active_calls m cid = Some ci \<and> incoming ci \<and> deferred_answer ci \<and> state ci = RINGING
       \<and> raw_invite ci = Some invite \<and> sip_addr ci = Some addr \<and> account_id ci = Some acct
       \<and> sockets m acct = Some sock
       \<and> active_calls m' = (active_calls m)(cid \<mapsto> ci\<lparr>deferred_answer := False, state := ANSWERED\<rparr>)
       \<and> sent m' = sent m @ [(acct, ok200_for ci invite (contact_port sock), addr)])
      \<and> answer_deferred_call m' cid = (False, m'))
   \<and> ((\<forall>ci. active_calls m cid = Some ci \<longrightarrow>
            state ci \<noteq> RINGING \<or> \<not> deferred_answer ci \<or> \<not> incoming ci)
        \<longrightarrow> answer_deferred_call m cid = (False, m))
   \<and> (fst (answer_deferred_call m cid) = False \<longrightarrow> snd (answer_deferred_call m cid) = m)
   \<and> length (filter (\<lambda>ok. ok) (fst (answer_times n m cid))) \<le> 1
   \<and> length (sent (snd (answer_times n m cid))) \<le> length (sent m) + 1"
proof (intro conjI impI)
  assume a: "answer_deferred_call m cid = (True, m')"
  from answer_deferred_call_True [OF a]
  show "\<exists>ci invite addr acct sock.
         active_calls m cid = Some ci \<and> incoming ci \<and> deferred_answer ci \<and> state ci = RINGING
       \<and> raw_invite ci = Some invite \<and> sip_addr ci = Some addr \<and> account_id ci = Some acct
       \<and> sockets m acct = Some sock
       \<and> active_calls m' = (active_calls m)(cid \<mapsto> ci\<lparr>deferred_answer := False, state := ANSWERED\<rparr>)
       \<and> sent m' = sent m @ [(acct, ok200_for ci invite (contact_port sock), addr)]"
    by blast
  from a show "answer_deferred_call m' cid = (False, m')"
    by (rule answer_deferred_call_twice)
next
  assume "\<forall>ci. active_calls m cid = Some ci \<longrightarrow>
            state ci \<noteq> RINGING \<or> \<not> deferred_answer ci \<or> \<not> incoming ci"
  then show "answer_deferred_call m cid = (False, m)"
    by (intro answer_deferred_call_not_eligible) blast
next
  assume "fst (answer_deferred_call m cid) = False"
  then show "snd (answer_deferred_call m cid) = m"
    by (rule answer_deferred_call_False)
next
  show "length (filter (\<lambda>ok. ok) (fst (answer_times n m cid))) \<le> 1"
    using answer_times_at_most_once [of n m cid] by simp
  show "length (sent (snd (answer_times n m cid))) \<le> length (sent m) + 1"
    using answer_times_at_most_once [of n m cid] by simp
qed

theorem answer_deferred_call_idempotent_witness:
  "answer_deferred_call two_call_manager 1000 = (True, answered_once)
   \<and> sent answered_once
       = [(1, Ok200Sdp ''INVITE'' (Some 10000) 0 ''PCMU'' 5061, (''203.0.113.7'', 5060))]
   \<and> map_option state (active_calls answered_once 1000) = Some ANSWERED
   \<and> answer_deferred_call answered_once 1000 = (False, answered_once)
   \<and> (\<exists>ci. active_calls answered_once 1000 = Some ci \<and> state ci \<noteq> RINGING)
   \<and> fst (answer_deferred_call two_call_manager 7) = False
   \<and> snd (answer_deferred_call two_call_manager 7) = two_call_manager"
proof -
  have ok: "fst (answer_deferred_call two_call_manager 1000) = True"
    by code_simp
  then have a: "answer_deferred_call two_call_manager 1000 = (True, answered_once)"
    by (simp add: answered_once_def prod_eq_iff)
  have s: "sent answered_once
       = [(1, Ok200Sdp ''INVITE'' (Some 10000) 0 ''PCMU'' 5061, (''203.0.113.7'', 5060))]"
    by code_simp
  have st: "map_option state (active_calls answered_once 1000) = Some ANSWERED"
    by code_simp
  then have ex: "\<exists>ci. active_calls answered_once 1000 = Some ci \<and> state ci \<noteq> RINGING"
    by auto
  have none: "fst (answer_deferred_call two_call_manager 7) = False"
    by code_simp
  show ?thesis
    using a s st ex none
      answer_deferred_call_idempotent [of two_call_manager 1000 answered_once 0]
      answer_deferred_call_idempotent [of two_call_manager 7 answered_once 0]
    by simp
qed

section \<open>Properties of the coordinator\<close>

subsection \<open>What one answer attempt changes\<close>

lemma answer_incoming_call_False:
  "fst (answer_incoming_call m cid) = False \<Longrightarrow> snd (answer_incoming_call m cid) = m"
  by (auto simp add: answer_incoming_call_def Let_def split: option.splits if_splits prod.splits)

lemma attempt_sip_answer_eq:
  "attempt_sip_answer m cid =
     (if fst (answer_deferred_call m cid) then answer_deferred_call m cid
      else answer_incoming_call m cid)"
proof (cases "fst (answer_deferred_call m cid)")
  case True
  then show ?thesis
    by (cases "answer_deferred_call m cid") (simp add: attempt_sip_answer_def)
next
  case False
  then have "snd (answer_deferred_call m cid) = m"
    by (intro answer_deferred_call_False) simp
  then show ?thesis
    using False by (cases "answer_deferred_call m cid") (simp add: attempt_sip_answer_def)
qed

lemma attempt_sip_answer_False:
  "fst (attempt_sip_answer m cid) = False \<Longrightarrow> snd (attempt_sip_answer m cid) = m"
  using answer_incoming_call_False [of m cid]
  by (simp add: attempt_sip_answer_eq split: if_splits)

lemma answer_deferred_call_frame:
  "frame_of cid m (snd (answer_deferred_call m cid))"
  by (auto simp add: answer_deferred_call_def frame_of_def sip_number_of_def notify_state_def
      Let_def split: option.splits)

lemma answer_incoming_call_frame:
  "frame_of cid m (snd (answer_incoming_call m cid))"
  by (auto simp add: answer_incoming_call_def frame_of_def sip_number_of_def notify_state_def
      Let_def split: option.splits)

lemma frame_of_trans: "frame_of cid m m1 \<Longrightarrow> frame_of cid m1 m2 \<Longrightarrow> frame_of cid m m2"
  by (simp add: frame_of_def)

lemma frame_of_refl: "frame_of cid m m"
  by (simp add: frame_of_def)

lemma attempt_sip_answer_frame:
  "frame_of cid m (snd (attempt_sip_answer m cid))"
  by (simp add: attempt_sip_answer_eq answer_deferred_call_frame answer_incoming_call_frame)




lemma attempt_sip_answer_sent:
  "length (sent (snd (attempt_sip_answer m cid)))
     = length (sent m) + (if fst (attempt_sip_answer m cid) then 1 else 0)"
  by (auto simp add: attempt_sip_answer_eq answer_deferred_call_def answer_incoming_call_def
      Let_def split: option.splits)

subsection \<open>The two passes\<close>

lemma answered_only_Cons:
  "answered_only may ((c, i) # d) ((c', i') # d') \<longleftrightarrow>
     c' = c \<and> (i' = i \<or> (may c i \<and> \<not> answered i \<and> i' = i\<lparr>answered := True\<rparr>))
     \<and> answered_only may d d'"
  by (simp add: answered_only_def)

lemma answered_only_Nil: "answered_only may [] []"
  by (simp add: answered_only_def)

lemma answered_only_refl: "answered_only may d d"
  by (simp add: answered_only_def list_all2_same)

lemma answered_only_mono:
  "answered_only may d d' \<Longrightarrow> (\<And>c i. may c i \<Longrightarrow> may' c i) \<Longrightarrow> answered_only may' d d'"
  unfolding answered_only_def by (erule list_all2_mono) auto

lemma frame_of_same_env: "frame_of cid m m' \<Longrightarrow> same_env m m'"
  by (simp add: frame_of_def same_env_def)

lemma attempt_same_env: "same_env m (snd (attempt_sip_answer m cid))"
  by (rule frame_of_same_env) (rule attempt_sip_answer_frame)

lemma same_env_trans: "same_env m m1 \<Longrightarrow> same_env m1 m2 \<Longrightarrow> same_env m m2"
  by (simp add: same_env_def)

lemma match_pass_skip:
  assumes "d_account_id info \<noteq> account \<or> answered info
           \<or> number_mismatch number (sip_number_of m cid)"
    and "match_pass account number rest m = (r1, mm, b)"
  shows "match_pass account number ((cid, info) # rest) m = ((cid, info) # r1, mm, b)"
  using assms by auto

lemma match_pass_try:
  assumes "d_account_id info = account" and "\<not> answered info"
    and "\<not> number_mismatch number (sip_number_of m cid)"
    and "attempt_sip_answer m cid = (ok, m0)"
    and "match_pass account number rest m0 = (r1, mm, b)"
  shows "match_pass account number ((cid, info) # rest) m =
           ((cid, if ok then info\<lparr>answered := True\<rparr> else info) # r1, mm, ok \<or> b)"
  using assms by auto

lemma match_pass_only:
  "match_pass account number d m = (d1, m1, matched) \<Longrightarrow>
     answered_only (\<lambda>cid info. d_account_id info = account
                       \<and> \<not> number_mismatch number (sip_number_of m cid)) d d1
   \<and> same_env m m1"
proof (induction d arbitrary: m d1 m1 matched)
  case Nil
  then show ?case by (simp add: answered_only_Nil same_env_def)
next
  case (Cons e d)
  obtain cid info where e: "e = (cid, info)" by (cases e)
  show ?case
  proof (cases "d_account_id info \<noteq> account \<or> answered info \<or> number_mismatch number (sip_number_of m cid)")
    case True
    obtain r1 mm b where r: "match_pass account number d m = (r1, mm, b)"
      by (cases "match_pass account number d m") auto
    from match_pass_skip [OF True r] Cons.prems e have "d1 = (cid, info) # r1" "m1 = mm"
      by auto
    then show ?thesis
      using Cons.IH [OF r] e by (simp add: answered_only_Cons)
  next
    case False
    obtain ok m0 where a: "attempt_sip_answer m cid = (ok, m0)"
      by (cases "attempt_sip_answer m cid")
    obtain r1 mm b where r: "match_pass account number d m0 = (r1, mm, b)"
      by (cases "match_pass account number d m0") auto
    have env: "same_env m m0"
      using attempt_same_env [of m cid] a by simp
    then have num: "sip_number_of m0 c = sip_number_of m c" for c
      by (simp add: same_env_def)
    have ih: "answered_only (\<lambda>cid info. d_account_id info = account
                       \<and> \<not> number_mismatch number (sip_number_of m cid)) d r1"
      and env': "same_env m0 mm"
      using Cons.IH [OF r] by (simp_all add: num)
    from False have f: "d_account_id info = account" "\<not> answered info"
      "\<not> number_mismatch number (sip_number_of m cid)"
      by auto
    from match_pass_try [OF f a r] Cons.prems e
    have "d1 = (cid, if ok then info\<lparr>answered := True\<rparr> else info) # r1" "m1 = mm"
      by auto
    then show ?thesis
      using ih env env' False e by (auto simp add: answered_only_Cons intro: same_env_trans)
  qed
qed

lemma match_pass_unmatched:
  "match_pass account number d m = (d1, m1, False) \<Longrightarrow> d1 = d \<and> m1 = m"
proof (induction d arbitrary: m d1 m1)
  case Nil
  then show ?case by simp
next
  case (Cons e d)
  obtain cid info where e: "e = (cid, info)" by (cases e)
  show ?case
  proof (cases "d_account_id info \<noteq> account \<or> answered info \<or> number_mismatch number (sip_number_of m cid)")
    case True
    obtain r1 mm b where r: "match_pass account number d m = (r1, mm, b)"
      by (cases "match_pass account number d m") auto
    from match_pass_skip [OF True r] Cons.prems e
    have "d1 = (cid, info) # r1" "m1 = mm" "b = False"
      by auto
    then show ?thesis
      using Cons.IH [of m r1 mm] r e by simp
  next
    case False
    obtain ok m0 where a: "attempt_sip_answer m cid = (ok, m0)"
      by (cases "attempt_sip_answer m cid")
    obtain r1 mm b where r: "match_pass account number d m0 = (r1, mm, b)"
      by (cases "match_pass account number d m0") auto
    from False have f: "d_account_id info = account" "\<not> answered info"
      "\<not> number_mismatch number (sip_number_of m cid)"
      by auto
    from match_pass_try [OF f a r] Cons.prems e
    have eq: "d1 = (cid, if ok then info\<lparr>answered := True\<rparr> else info) # r1" "m1 = mm"
      and no: "\<not> ok" "\<not> b"
      by auto
    have "m0 = m"
      using attempt_sip_answer_False [of m cid] a no by simp
    then show ?thesis
      using Cons.IH [of m0 r1 mm] r e eq no by simp
  qed
qed


lemma fallback_pass_skip:
  assumes "\<not> (d_account_id info = account \<and> \<not> answered info)"
    and "fallback_pass account rest m = (r1, mm)"
  shows "fallback_pass account ((cid, info) # rest) m = ((cid, info) # r1, mm)"
  using assms by auto

lemma fallback_pass_hit:
  assumes "d_account_id info = account" and "\<not> answered info"
    and "attempt_sip_answer m cid = (True, m0)"
  shows "fallback_pass account ((cid, info) # rest) m = ((cid, info\<lparr>answered := True\<rparr>) # rest, m0)"
  using assms by simp

lemma fallback_pass_miss:
  assumes "d_account_id info = account" and "\<not> answered info"
    and "attempt_sip_answer m cid = (False, m0)"
    and "fallback_pass account rest m0 = (r1, mm)"
  shows "fallback_pass account ((cid, info) # rest) m = ((cid, info) # r1, mm)"
  using assms by simp

lemma answered_count_Cons:
  "answered_count ((c, i) # d) = (if answered i then 1 else 0) + answered_count d"
  by (simp add: answered_count_def)

lemma fallback_pass_only:
  "fallback_pass account d m = (d1, m1) \<Longrightarrow>
     answered_only (\<lambda>cid info. d_account_id info = account) d d1
   \<and> same_env m m1
   \<and> answered_count d1 \<le> answered_count d + 1
   \<and> length (sent m1) = length (sent m) + (answered_count d1 - answered_count d)"
proof (induction d arbitrary: m d1 m1)
  case Nil
  then show ?case by (simp add: answered_only_Nil same_env_def)
next
  case (Cons e d)
  obtain cid info where e: "e = (cid, info)" by (cases e)
  show ?case
  proof (cases "d_account_id info = account \<and> \<not> answered info")
    case False
    obtain r1 mm where r: "fallback_pass account d m = (r1, mm)"
      by (cases "fallback_pass account d m")
    from fallback_pass_skip [OF False r] Cons.prems e have "d1 = (cid, info) # r1" "m1 = mm"
      by auto
    then show ?thesis
      using Cons.IH [OF r] e by (simp add: answered_only_Cons answered_count_Cons)
  next
    case True
    then have f: "d_account_id info = account" "\<not> answered info" by auto
    obtain ok m0 where a: "attempt_sip_answer m cid = (ok, m0)"
      by (cases "attempt_sip_answer m cid")
    have env: "same_env m m0"
      using attempt_same_env [of m cid] a by simp
    have snt: "length (sent m0) = length (sent m) + (if ok then 1 else 0)"
      using attempt_sip_answer_sent [of m cid] a by simp
    show ?thesis
    proof (cases ok)
      case True
      from fallback_pass_hit [OF f] a True Cons.prems e
      have "d1 = (cid, info\<lparr>answered := True\<rparr>) # d" "m1 = m0"
        by auto
      then show ?thesis
        using f env snt True e
        by (simp add: answered_only_Cons answered_only_refl answered_count_Cons)
    next
      case False
      obtain r1 mm where r: "fallback_pass account d m0 = (r1, mm)"
        by (cases "fallback_pass account d m0")
      from fallback_pass_miss [OF f] a False r Cons.prems e
      have "d1 = (cid, info) # r1" "m1 = mm"
        by auto
      then show ?thesis
        using Cons.IH [OF r] env snt False f e
        by (auto simp add: answered_only_Cons answered_count_Cons intro: same_env_trans)
    qed
  qed
qed

lemma none_pending_Cons:
  "none_pending account ((c, i) # d) \<longleftrightarrow>
     \<not> (d_account_id i = account \<and> \<not> answered i) \<and> none_pending account d"
  by (simp add: none_pending_def)

lemma none_pending_iff: "none_pending account d \<longleftrightarrow> pending_calls account d = []"
  by (induction d) (auto simp add: none_pending_def pending_calls_def)

lemma fallback_pass_none_pending:
  "none_pending account d \<Longrightarrow> fallback_pass account d m = (d, m)"
  by (induction d) (auto simp add: none_pending_def)

lemma match_pass_none_pending:
  "none_pending account d \<Longrightarrow> match_pass account number d m = (d, m, False)"
  by (induction d) (auto simp add: none_pending_def)

lemma fallback_pass_oldest:
  assumes "none_pending account pre" and "d_account_id info = account" and "\<not> answered info"
    and "attempt_sip_answer m cid = (True, m0)"
  shows "fallback_pass account (pre @ (cid, info) # rest) m
           = (pre @ (cid, info\<lparr>answered := True\<rparr>) # rest, m0)"
  using assms
  by (induction pre) (auto simp add: none_pending_def)

subsection \<open>The presence callback\<close>

lemma on_state_connected:
  "on_state account WA_CONNECTED number (d, m) =
     (if snd (snd (match_pass account number d m))
      then (fst (match_pass account number d m), fst (snd (match_pass account number d m)))
      else fallback_pass account d m)"
proof -
  obtain d1 m1 matched where r: "match_pass account number d m = (d1, m1, matched)"
    by (cases "match_pass account number d m") auto
  show ?thesis
  proof (cases matched)
    case True
    then show ?thesis using r by (simp add: on_state_def)
  next
    case False
    then have u: "d1 = d" "m1 = m"
      using match_pass_unmatched [of account number d m d1 m1] r by simp_all
    show ?thesis
    proof (cases "pending_calls account d = []")
      case True
      then have "fallback_pass account d m = (d, m)"
        by (simp add: fallback_pass_none_pending none_pending_iff)
      then show ?thesis using r False u True by (simp add: on_state_def)
    next
      case ne: False
      then show ?thesis using r False u by (simp add: on_state_def)
    qed
  qed
qed

lemma on_state_other: "st \<noteq> WA_CONNECTED \<Longrightarrow> on_state account st number (d, m) = (d, m)"
  by (simp add: on_state_def)

lemma on_state_only:
  "answered_only (\<lambda>cid info. d_account_id info = account) d (fst (on_state account st number (d, m)))"
proof (cases "st = WA_CONNECTED")
  case False
  then show ?thesis by (simp add: on_state_other answered_only_refl)
next
  case True
  obtain d1 m1 matched where r: "match_pass account number d m = (d1, m1, matched)"
    by (cases "match_pass account number d m") auto
  obtain d2 m2 where f: "fallback_pass account d m = (d2, m2)"
    by (cases "fallback_pass account d m")
  have a: "answered_only (\<lambda>cid info. d_account_id info = account) d d1"
    using match_pass_only [OF r] by (auto elim: answered_only_mono)
  have b: "answered_only (\<lambda>cid info. d_account_id info = account) d d2"
    using fallback_pass_only [OF f] by simp
  show ?thesis
    using True a b r f by (simp add: on_state_connected)
qed

subsection \<open>Matching by number\<close>





subsection \<open>The fallback\<close>

text \<open>
  Claim C2, as stated, fails twice on two pending calls (1000, then 1001) of account 1.
  A CONNECTED event without a number answers both calls, in the matching pass, not the
  single oldest one.  And after a CONNECTED event with the first call's number has
  answered call 1000, the same event delivered again answers call 1001 through the
  fallback: the \<open>answered\<close> mark is kept per call, not per account.
\<close>

theorem fallback_not_once_per_account_counterexample:
  "answered_ids (numberless_event (two_pending, two_call_manager)) = [1000, 1001]
   \<and> sent_count (numberless_event (two_pending, two_call_manager)) = 2
   \<and> answered_ids (matching_event (two_pending, two_call_manager)) = [1000]
   \<and> answered_ids (matching_event (matching_event (two_pending, two_call_manager))) = [1000, 1001]
   \<and> sent_count (matching_event (matching_event (two_pending, two_call_manager))) = 2"
  by code_simp

text \<open>
  Claim C2, amended.  If the matching pass of a CONNECTED presence event answers no
  deferred call and the oldest pending call of that account can be answered, the
  coordinator answers exactly that call as a fallback: it is marked answered, one 200 OK
  is sent and every other entry is left as it was.  Whenever the matching pass answers
  no call, the event answers at most one call and sends at most one datagram.  Every
  event leaves the order and the ids of the entries as they are and changes only entries
  of its account that were pending, so a call marked answered is never answered again; a
  CONNECTED event for an account without a pending deferred call, and every event that
  is not CONNECTED, changes nothing.
\<close>

theorem fallback_answers_oldest:
  "(\<not> snd (snd (match_pass account number (pre @ (cid, info) # rest) m))
      \<and> none_pending account pre \<and> d_account_id info = account \<and> \<not> answered info
      \<and> fst (attempt_sip_answer m cid) \<longrightarrow>
        on_state account WA_CONNECTED number (pre @ (cid, info) # rest, m)
          = (pre @ (cid, info\<lparr>answered := True\<rparr>) # rest, snd (attempt_sip_answer m cid))
        \<and> length (sent (snd (attempt_sip_answer m cid))) = length (sent m) + 1)
   \<and> (\<not> snd (snd (match_pass account number d m)) \<longrightarrow>
        answered_count (fst (on_state account WA_CONNECTED number (d, m))) \<le> answered_count d + 1
        \<and> length (sent (snd (on_state account WA_CONNECTED number (d, m)))) \<le> length (sent m) + 1)
   \<and> answered_only (\<lambda>cid info. d_account_id info = account) d
        (fst (on_state account st number (d, m)))
   \<and> (pending_calls account d = [] \<longrightarrow> on_state account st number (d, m) = (d, m))
   \<and> (st \<noteq> WA_CONNECTED \<longrightarrow> on_state account st number (d, m) = (d, m))"
proof (intro conjI impI)
  assume h: "\<not> snd (snd (match_pass account number (pre @ (cid, info) # rest) m))
      \<and> none_pending account pre \<and> d_account_id info = account \<and> \<not> answered info
      \<and> fst (attempt_sip_answer m cid)"
  then have a: "attempt_sip_answer m cid = (True, snd (attempt_sip_answer m cid))"
    by (simp add: prod_eq_iff)
  from h fallback_pass_oldest [OF _ _ _ a, of account pre info rest]
  show "on_state account WA_CONNECTED number (pre @ (cid, info) # rest, m)
          = (pre @ (cid, info\<lparr>answered := True\<rparr>) # rest, snd (attempt_sip_answer m cid))"
    by (simp add: on_state_connected)
  from h show "length (sent (snd (attempt_sip_answer m cid))) = length (sent m) + 1"
    by (simp add: attempt_sip_answer_sent)
next
  assume h: "\<not> snd (snd (match_pass account number d m))"
  obtain d2 m2 where f: "fallback_pass account d m = (d2, m2)"
    by (cases "fallback_pass account d m")
  from fallback_pass_only [OF f] h f
  show "answered_count (fst (on_state account WA_CONNECTED number (d, m))) \<le> answered_count d + 1"
    and "length (sent (snd (on_state account WA_CONNECTED number (d, m)))) \<le> length (sent m) + 1"
    by (auto simp add: on_state_connected)
next
  show "answered_only (\<lambda>cid info. d_account_id info = account) d
        (fst (on_state account st number (d, m)))"
    by (rule on_state_only)
next
  assume p: "pending_calls account d = []"
  show "on_state account st number (d, m) = (d, m)"
  proof (cases "st = WA_CONNECTED")
    case True
    then show ?thesis
      using p by (simp add: on_state_connected match_pass_none_pending fallback_pass_none_pending
          none_pending_iff)
  next
    case False
    then show ?thesis by (rule on_state_other)
  qed
next
  assume "st \<noteq> WA_CONNECTED"
  then show "on_state account st number (d, m) = (d, m)"
    by (rule on_state_other)
qed

theorem fallback_answers_oldest_witness:
  "\<not> snd (snd (match_pass 1 (Some ''+94771234567'') two_pending two_call_manager))
   \<and> fst (attempt_sip_answer two_call_manager 1000)
   \<and> fst (foreign_event (two_pending, two_call_manager))
       = [(1000, \<lparr>d_account_id = 1, answered = True\<rparr>),
          (1001, \<lparr>d_account_id = 1, answered = False\<rparr>)]
   \<and> sent_count (foreign_event (two_pending, two_call_manager)) = 1
   \<and> pending_calls 2 two_pending = []
   \<and> on_state 2 WA_CONNECTED None (two_pending, two_call_manager) = (two_pending, two_call_manager)
   \<and> on_state 1 WA_IDLE None (two_pending, two_call_manager) = (two_pending, two_call_manager)"
proof -
  have h1: "\<not> snd (snd (match_pass 1 (Some ''+94771234567'') two_pending two_call_manager))"
    by code_simp
  have h2: "fst (attempt_sip_answer two_call_manager 1000)"
    by code_simp
  have h3: "none_pending 1 []" "pending_calls 2 two_pending = []"
    by (simp_all add: none_pending_def pending_calls_def two_pending_def)
  have h4: "two_pending = [] @ (1000, \<lparr>d_account_id = 1, answered = False\<rparr>)
                # [(1001, \<lparr>d_account_id = 1, answered = False\<rparr>)]"
    by (simp add: two_pending_def)
  have h5: "WA_IDLE \<noteq> WA_CONNECTED"
    by simp
  have s: "sent two_call_manager = []"
    by (simp add: two_call_manager_def)
  show ?thesis
    using h1 h2 h3 h5 s
      fallback_answers_oldest [of 1 "Some ''+94771234567''" "[]" 1000
        "\<lparr>d_account_id = 1, answered = False\<rparr>"
        "[(1001, \<lparr>d_account_id = 1, answered = False\<rparr>)]" two_call_manager
        two_pending WA_CONNECTED]
      fallback_answers_oldest [of 2 None "[]" 1000
        "\<lparr>d_account_id = 1, answered = False\<rparr>"
        "[(1001, \<lparr>d_account_id = 1, answered = False\<rparr>)]" two_call_manager
        two_pending WA_CONNECTED]
      fallback_answers_oldest [of 1 None "[]" 1000
        "\<lparr>d_account_id = 1, answered = False\<rparr>"
        "[(1001, \<lparr>d_account_id = 1, answered = False\<rparr>)]" two_call_manager
        two_pending WA_IDLE]
    unfolding h4 [symmetric]
    by (simp add: foreign_event_def sent_count_def)
qed

section \<open>Properties of the registrar\<close>

lemma retry_loop_all_fail:
  assumes "\<not> perform 0" and "\<not> perform 1" and "\<not> perform 2"
  shows "retry_loop perform 3 [0..<3]
           = ([Attempt 0, Sleep 3, Attempt 1, Sleep 3, Attempt 2], False)"
proof -
  have "[0..<3] = [0, 1, 2::nat]"
    by (simp add: upt_rec numeral_eq_Suc)
  then show ?thesis
    using assms by (simp add: Let_def)
qed

text \<open>
  Claim C8.  When every registration attempt fails, \<open>register_account\<close> on an account
  that was added and has a socket performs exactly the three attempts 0, 1 and 2, never
  fewer or more, with a \<open>time.sleep(3)\<close> between consecutive attempts and none after the
  last, so every attempt after the first starts at least 3000 ms after the attempt
  before it ended; it then reports the account unregistered through
  \<open>on_registration_state_changed(account, False, 0)\<close>, when that callback is installed,
  and does not enter the account into \<open>registered_accounts\<close>.
\<close>

theorem register_account_three_attempts:
  assumes "acct \<in> accounts" and "acct \<in> with_socket"
    and "\<forall>n < 3. \<not> perform n"
  shows "register_account accounts with_socket acct perform has_callback
           = (True, [Attempt 0, Sleep 3, Attempt 1, Sleep 3, Attempt 2]
                    @ (if has_callback then [RegistrationStateChanged acct False 0] else []))
       \<and> attempts_of (snd (register_account accounts with_socket acct perform has_callback))
           = [0, 1, 2]
       \<and> length (attempt_spans took late now
                    (snd (register_account accounts with_socket acct perform has_callback))) = 3
       \<and> spaced 3000 (attempt_spans took late now
                    (snd (register_account accounts with_socket acct perform has_callback)))
       \<and> AddRegistered acct
            \<notin> set (snd (register_account accounts with_socket acct perform has_callback))"
proof -
  have f: "\<not> perform 0" "\<not> perform 1" "\<not> perform 2"
    using assms(3) by simp_all
  have r: "register_account accounts with_socket acct perform has_callback
           = (True, [Attempt 0, Sleep 3, Attempt 1, Sleep 3, Attempt 2]
                    @ (if has_callback then [RegistrationStateChanged acct False 0] else []))"
    using assms(1,2) by (simp add: register_account_def register_thread_def retry_loop_all_fail [OF f])
  show ?thesis
    unfolding r by (simp add: attempts_of_def)
qed

theorem register_account_three_attempts_witness:
  "register_account {1, 2} {1, 2} 1 (\<lambda>n. False) True
     = (True, [Attempt 0, Sleep 3, Attempt 1, Sleep 3, Attempt 2,
               RegistrationStateChanged 1 False 0])
   \<and> attempt_spans (\<lambda>n. 15000) (\<lambda>k. 0) 0
        (snd (register_account {1, 2} {1, 2} 1 (\<lambda>n. False) True))
       = [(0, 15000), (18000, 33000), (36000, 51000)]"
proof -
  have "(1::nat) \<in> {1, 2}" and "\<forall>n < 3. \<not> (\<lambda>n::nat. False) n"
    by simp_all
  from register_account_three_attempts [OF this(1) this(1) this(2), of True]
  have r: "register_account {1, 2} {1, 2} 1 (\<lambda>n. False) True
     = (True, [Attempt 0, Sleep 3, Attempt 1, Sleep 3, Attempt 2,
               RegistrationStateChanged 1 False 0])"
    by simp
  show ?thesis
    unfolding r by simp
qed

section \<open>Properties of digest authentication\<close>

lemma drop_prefix_and_quote: "drop (Suc (length p)) (p @ c # r) = r"
  by simp

lemma response_param_of_header:
  "response_param
     (''Digest username='' @ quoted username @ '', realm='' @ quoted realm
      @ '', nonce='' @ quoted nonce @ '', uri='' @ quoted uri @ '', response='' @ quoted h)
     username realm nonce uri = h"
proof -
  let ?pre = "''Digest username='' @ quoted username @ '', realm='' @ quoted realm
              @ '', nonce='' @ quoted nonce @ '', uri='' @ quoted uri @ '', response=''"
  have "butlast (drop (Suc (length ?pre)) (?pre @ CHR 0x22 # h @ [CHR 0x22])) = h"
    by (simp only: drop_prefix_and_quote butlast_snoc)
  then show ?thesis
    by (simp add: response_param_def quoted_def)
qed

text \<open>
  Claim C9.  For every MD5 function, the response hash that both managers put into the
  Authorization header is \<open>MD5(HA1:nonce:HA2)\<close> with \<open>HA1 = MD5(username:realm:password)\<close>
  and \<open>HA2 = MD5(method:uri)\<close>, which is the request digest of RFC 2617; the registrar
  uses the method REGISTER and the URI \<open>sip:\<close> followed by the domain.  In particular, for
  user JEFF01, realm r, password 112233, nonce n1, method REGISTER and URI sip:d (domain
  d), the \<open>response\<close> parameter of the header of either manager is, character for
  character, the RFC 2617 request digest of those inputs.
\<close>

theorem digest_response_is_rfc2617:
  "register_response_hash md5hex username password domain realm nonce
     = md5hex (md5hex (username @ '':'' @ realm @ '':'' @ password) @ '':'' @ nonce @ '':''
               @ md5hex (''REGISTER:sip:'' @ domain))
   \<and> register_response_hash md5hex username password domain realm nonce
     = rfc2617_request_digest md5hex username realm password nonce ''REGISTER'' (''sip:'' @ domain)
   \<and> response_param (register_auth_header md5hex username password domain realm nonce)
        username realm nonce (''sip:'' @ domain)
     = rfc2617_request_digest md5hex username realm password nonce ''REGISTER'' (''sip:'' @ domain)
   \<and> response_param (create_auth_header md5hex username password sip_method uri realm nonce)
        username realm nonce uri
     = rfc2617_request_digest md5hex username realm password nonce sip_method uri
   \<and> response_param (register_auth_header md5hex ''JEFF01'' ''112233'' ''d'' ''r'' ''n1'')
        ''JEFF01'' ''r'' ''n1'' ''sip:d''
     = rfc2617_request_digest md5hex ''JEFF01'' ''r'' ''112233'' ''n1'' ''REGISTER'' ''sip:d''
   \<and> response_param (create_auth_header md5hex ''JEFF01'' ''112233'' ''REGISTER'' ''sip:d'' ''r'' ''n1'')
        ''JEFF01'' ''r'' ''n1'' ''sip:d''
     = rfc2617_request_digest md5hex ''JEFF01'' ''r'' ''112233'' ''n1'' ''REGISTER'' ''sip:d''
   \<and> rfc2617_request_digest md5hex ''JEFF01'' ''r'' ''112233'' ''n1'' ''REGISTER'' ''sip:d''
     = md5hex (md5hex ''JEFF01:r:112233'' @ '':n1:'' @ md5hex ''REGISTER:sip:d'')"
proof -
  have a: "register_response_hash md5hex u p dom r n
     = rfc2617_request_digest md5hex u r p n ''REGISTER'' (''sip:'' @ dom)" for u p dom r n
    by (simp add: register_response_hash_def rfc2617_request_digest_def rfc2617_KD_def
        rfc2617_A1_def rfc2617_A2_def Let_def)
  have b: "response_param (register_auth_header md5hex u p dom r n) u r n (''sip:'' @ dom)
     = rfc2617_request_digest md5hex u r p n ''REGISTER'' (''sip:'' @ dom)" for u p dom r n
    unfolding register_auth_header_def Let_def a
    by (rule response_param_of_header)
  have c: "response_param (create_auth_header md5hex u p me ur r n) u r n ur
     = md5hex (md5hex (u @ '':'' @ r @ '':'' @ p) @ '':'' @ n @ '':'' @ md5hex (me @ '':'' @ ur))"
    for u p me ur r n
    unfolding create_auth_header_def Let_def
    by (rule response_param_of_header)
  have d: "rfc2617_request_digest md5hex u r p n me ur
     = md5hex (md5hex (u @ '':'' @ r @ '':'' @ p) @ '':'' @ n @ '':'' @ md5hex (me @ '':'' @ ur))"
    for u p me ur r n
    by (simp add: rfc2617_request_digest_def rfc2617_KD_def rfc2617_A1_def rfc2617_A2_def)
  have e: "''sip:'' @ ''d'' = ''sip:d''"
    by simp
  show ?thesis
    using a [of username password domain realm nonce] b [of username password domain realm nonce]
      b [of "''JEFF01''" "''112233''" "''d''" "''r''" "''n1''"]
      c [of "''JEFF01''" "''112233''" "''REGISTER''" "''sip:d''" "''r''" "''n1''"]
      c [of username password sip_method uri realm nonce]
      d [of username realm password nonce sip_method uri]
      d [of "''JEFF01''" "''r''" "''112233''" "''n1''" "''REGISTER''" "''sip:d''"]
      d [of username realm password nonce "''REGISTER''" "''sip:'' @ domain"]
    unfolding e by simp
qed

end
